theory Spec2Isabelle
  imports Complex_Main
begin

section \<open>MambaOut (timm/models/mambaout.py): a shallow embedding\<close>

text \<open>
  The embedding follows the module structure of \<^verbatim>\<open>mambaout.py\<close>: every
  \<^verbatim>\<open>nn.Module\<close> class is a record of its sub-modules, its \<^verbatim>\<open>__init__\<close> is a function
  returning either an error or the constructed record, and its \<^verbatim>\<open>forward\<close> is a function
  over an interpretation of the tensor primitives.

  Conventions.
  \<^item> Python ints are \<^typ>\<open>int\<close>. A Python float is the \<^typ>\<open>real\<close> it denotes: a float
    argument is rounded to a double where it enters an operation (\<open>fl64\<close>), and every
    float operation rounds its exact result to the nearest double, ties to even. An
    infinite or undefined float result is an exception where Python raises one.
  \<^item> Tensor and layer sizes are unbounded: running out of memory is not modelled.
  \<^item> A raised exception is \<open>Inl e\<close>; a returned value is \<open>Inr v\<close>.
  \<^item> The classes \<^verbatim>\<open>norm_layer\<close>, \<^verbatim>\<open>act_layer\<close>, \<^verbatim>\<open>output_norm\<close> and \<^verbatim>\<open>head_fn\<close> are
    fixed at their defaults (\<^verbatim>\<open>LayerNorm\<close>, \<^verbatim>\<open>nn.GELU\<close>, \<^verbatim>\<open>LayerNorm\<close>, \<^verbatim>\<open>MlpHead\<close>).
  \<^item> Learned weights are not part of a module record: a module is identified by its
    configuration, and the interpretation of the primitives supplies its function.
\<close>

subsection \<open>Exceptions\<close>

datatype error = AssertionError | IndexError | ValueError | RuntimeError | OverflowError

definition bind_r :: "error + 'a \<Rightarrow> ('a \<Rightarrow> error + 'b) \<Rightarrow> error + 'b" where
  "bind_r m f = (case m of Inl e \<Rightarrow> Inl e | Inr v \<Rightarrow> f v)"

fun mapM_r :: "('a \<Rightarrow> error + 'b) \<Rightarrow> 'a list \<Rightarrow> error + 'b list" where
  "mapM_r f [] = Inr []"
| "mapM_r f (x # xs) = bind_r (f x) (\<lambda>y. bind_r (mapM_r f xs) (\<lambda>ys. Inr (y # ys)))"

fun foldM_r :: "('b \<Rightarrow> 'a \<Rightarrow> error + 'a) \<Rightarrow> 'b list \<Rightarrow> 'a \<Rightarrow> error + 'a" where
  "foldM_r f [] x = Inr x"
| "foldM_r f (m # ms) x = bind_r (f m x) (foldM_r f ms)"

subsection \<open>Python built-ins\<close>

text \<open>\<^verbatim>\<open>int(x)\<close> on a float truncates toward zero.\<close>

definition py_int :: "real \<Rightarrow> int" where
  "py_int x = (if 0 \<le> x then \<lfloor>x\<rfloor> else \<lceil>x\<rceil>)"

text \<open>
  \<^verbatim>\<open>round(x)\<close> on a float rounds to the nearest integer, ties to the even one. The
  source never calls it; it is the reading of the specification that \<open>py_int\<close> is
  compared with.
\<close>

definition py_round :: "real \<Rightarrow> int" where
  "py_round x =
     (if x - of_int \<lfloor>x\<rfloor> < 1 / 2 then \<lfloor>x\<rfloor>
      else if 1 / 2 < x - of_int \<lfloor>x\<rfloor> then \<lfloor>x\<rfloor> + 1
      else if even \<lfloor>x\<rfloor> then \<lfloor>x\<rfloor> else \<lfloor>x\<rfloor> + 1)"

subsection \<open>Binary floating point\<close>

text \<open>
  The exponent \<open>e\<close> of a positive real \<open>x\<close>, with \<open>2^e \<le> x < 2^(e+1)\<close>, found by halving
  or doubling.
\<close>

function halvings :: "real \<Rightarrow> nat" where
  "halvings x = (if 2 \<le> x then Suc (halvings (x / 2)) else 0)"
  by pat_completeness auto
termination
proof (relation "measure (\<lambda>x. nat \<lfloor>x\<rfloor>)")
  show "wf (measure (\<lambda>x::real. nat \<lfloor>x\<rfloor>))" by simp
next
  fix x :: real
  assume "2 \<le> x"
  then have "\<lfloor>x / 2\<rfloor> < \<lfloor>x\<rfloor>" "0 < \<lfloor>x\<rfloor>" by linarith+
  then show "(x / 2, x) \<in> measure (\<lambda>x. nat \<lfloor>x\<rfloor>)" by simp
qed

function doublings :: "real \<Rightarrow> nat" where
  "doublings x = (if 0 < x \<and> x < 1 then Suc (doublings (2 * x)) else 0)"
  by pat_completeness auto
termination
proof (relation "measure (\<lambda>x. nat \<lfloor>1 / x\<rfloor>)")
  show "wf (measure (\<lambda>x::real. nat \<lfloor>1 / x\<rfloor>))" by simp
next
  fix x :: real
  assume a: "0 < x \<and> x < 1"
  define y where "y = 1 / x"
  from a have "1 \<le> y" by (simp add: y_def)
  then have y1: "1 \<le> \<lfloor>y\<rfloor>" by simp
  have "\<lfloor>y / real_of_int 2\<rfloor> = \<lfloor>y\<rfloor> div 2"
    by (rule floor_divide_real_eq_div) simp
  moreover have "1 / (2 * x) = y / real_of_int 2" by (simp add: y_def)
  moreover from y1 have "\<lfloor>y\<rfloor> div 2 < \<lfloor>y\<rfloor>" by linarith
  ultimately have "\<lfloor>1 / (2 * x)\<rfloor> < \<lfloor>1 / x\<rfloor>" by (simp only: y_def)
  moreover from y1 have "0 < \<lfloor>1 / x\<rfloor>" by (simp only: y_def)
  ultimately show "(2 * x, x) \<in> measure (\<lambda>x. nat \<lfloor>1 / x\<rfloor>)" by simp
qed

declare halvings.simps [simp del] doublings.simps [simp del]

definition float_exponent :: "real \<Rightarrow> int" where
  "float_exponent x = (if 1 \<le> x then int (halvings x) else - int (doublings x))"

text \<open>
  Rounding to the nearest value with a \<open>p\<close>-bit significand and a unit in the last
  place of at least \<open>2^qmin\<close> (the subnormal spacing), ties to the even significand.
  The exponent is not bounded above: a caller tests the result against the format's
  largest value where overflow matters.
\<close>

definition round_pos :: "nat \<Rightarrow> int \<Rightarrow> real \<Rightarrow> real" where
  "round_pos p qmin x =
     (let u = 2 powi (max (float_exponent x - int p + 1) qmin)
      in of_int (py_round (x / u)) * u)"

definition round_to :: "nat \<Rightarrow> int \<Rightarrow> real \<Rightarrow> real" where
  "round_to p qmin x =
     (if x = 0 then 0
      else if 0 < x then round_pos p qmin x
      else - round_pos p qmin (- x))"

text \<open>IEEE binary64 (a Python float) and binary32 (a \<^verbatim>\<open>torch.float32\<close> element).\<close>

definition fl64 :: "real \<Rightarrow> real" where
  "fl64 = round_to 53 (- 1074)"

definition fl32 :: "real \<Rightarrow> real" where
  "fl32 = round_to 24 (- 149)"

definition finite64 :: "real \<Rightarrow> bool" where
  "finite64 x \<longleftrightarrow> \<bar>x\<bar> < 2 ^ 1024"

definition float32_max :: real where
  "float32_max = 2 ^ 128 - 2 ^ 104"

text \<open>
  \<^verbatim>\<open>ratio * dim\<close> for a float \<open>ratio\<close> and an int \<open>dim\<close>: the int is converted to a
  float, and the product is rounded.
\<close>

definition float_product :: "real \<Rightarrow> int \<Rightarrow> real" where
  "float_product ratio d = fl64 (fl64 ratio * fl64 (of_int d))"

text \<open>
  \<^verbatim>\<open>int(ratio * dim)\<close>. Converting an int beyond the double range raises
  \<^verbatim>\<open>OverflowError\<close>; so does \<^verbatim>\<open>int\<close> of an infinite product, and \<^verbatim>\<open>int\<close> of the
  undefined product of an infinite ratio and zero raises \<^verbatim>\<open>ValueError\<close>.
\<close>

definition int_of_product :: "real \<Rightarrow> int \<Rightarrow> error + int" where
  "int_of_product ratio d =
     (let r = fl64 ratio; n = fl64 (of_int d); p = fl64 (r * n)
      in if \<not> finite64 n then Inl OverflowError
         else if \<not> finite64 r then (if d = 0 then Inl ValueError else Inl OverflowError)
         else if \<not> finite64 p then Inl OverflowError
         else Inr (py_int p))"

text \<open>\<^verbatim>\<open>xs[i]\<close> for an index \<open>i \<ge> 0\<close>, as produced by \<^verbatim>\<open>range\<close>.\<close>

definition getitem :: "'a list \<Rightarrow> nat \<Rightarrow> error + 'a" where
  "getitem xs i = (if i < length xs then Inr (xs ! i) else Inl IndexError)"

text \<open>
  An argument that is either a scalar or a list/tuple, as tested by
  \<^verbatim>\<open>isinstance(v, (list, tuple))\<close>.
\<close>

datatype 'a scalar_or_seq = Scalar 'a | Seq "'a list"

subsection \<open>Tensor primitives of torch used on one-dimensional tensors\<close>

text \<open>
  \<^verbatim>\<open>torch.linspace(start, end, steps)\<close> builds a \<^verbatim>\<open>float32\<close> tensor of \<open>steps\<close> elements.
  A negative count raises; no element is computed for zero steps; a single step fills
  the tensor with \<open>start\<close>; otherwise both endpoints are converted to \<^verbatim>\<open>float32\<close> (a
  double beyond the largest \<^verbatim>\<open>float32\<close> raises) and element \<open>i\<close> is computed by the
  device's kernel. The kernel evaluates \<open>start + i \<times> step\<close> or \<open>end - (steps - 1 - i) \<times> step\<close>
  in \<^verbatim>\<open>float32\<close>, element by element or several at a time depending on the
  processor, so its rounding is not fixed by the source: it is a parameter,
  \<open>krn start end steps i\<close>.
\<close>

type_synonym linspace_kernel = "real \<Rightarrow> real \<Rightarrow> nat \<Rightarrow> nat \<Rightarrow> real"

definition linspace :: "linspace_kernel \<Rightarrow> real \<Rightarrow> real \<Rightarrow> int \<Rightarrow> error + real list" where
  "linspace krn start end steps =
     (if steps < 0 then Inl RuntimeError
      else if steps = 0 then Inr []
      else if float32_max < \<bar>fl64 start\<bar> then Inl RuntimeError
      else if steps = 1 then Inr [fl32 (fl64 start)]
      else if float32_max < \<bar>fl64 end\<bar> then Inl RuntimeError
      else Inr (map (krn (fl32 (fl64 start)) (fl32 (fl64 end)) (nat steps))
                  [0 ..< nat steps]))"

text \<open>
  The kernel's element-by-element branch, every operation rounded to \<^verbatim>\<open>float32\<close>: the
  first half of the elements counts up from \<open>start\<close>, the second half down from \<open>end\<close>.
  It is what every device computes for the short schedules of the examples below.
\<close>

definition linspace_scalar32 :: linspace_kernel where
  "linspace_scalar32 start end steps i =
     (let step = fl32 (fl32 (end - start) / fl32 (of_nat (steps - 1)));
          halfway = steps div 2
      in if i < halfway then fl32 (start + fl32 (step * fl32 (of_nat i)))
         else fl32 (end - fl32 (step * fl32 (of_nat (steps - i - 1)))))"

text \<open>
  \<^verbatim>\<open>torch.split(x, sizes, dim)\<close> with a list of sizes, seen along the split axis: the
  axis is a list of entries. A negative size, or sizes that do not add up to the length
  of the axis, raise.
\<close>

fun chunks :: "'a list \<Rightarrow> nat list \<Rightarrow> 'a list list" where
  "chunks xs [] = []"
| "chunks xs (n # ns) = take n xs # chunks (drop n xs) ns"

definition torch_split :: "'a list \<Rightarrow> int list \<Rightarrow> error + 'a list list" where
  "torch_split xs sizes =
     (if \<exists>z \<in> set sizes. z < 0 then Inl RuntimeError
      else if sum_list sizes \<noteq> int (length xs) then Inl RuntimeError
      else Inr (chunks xs (map nat sizes)))"

subsection \<open>Leaf modules\<close>

text \<open>
  \<^verbatim>\<open>nn.Conv2d(in, out, kernel_size, stride, padding, groups)\<close>. The constructor raises
  \<^verbatim>\<open>ValueError\<close> unless \<open>groups\<close> is positive and divides both channel counts, and
  \<^verbatim>\<open>RuntimeError\<close> when the weight tensor would have a negative dimension.
\<close>

record Conv2d =
  in_channels :: int
  out_channels :: int
  conv_kernel_size :: int
  conv_stride :: int
  conv_padding :: int
  conv_groups :: int

definition Conv2d_init :: "int \<Rightarrow> int \<Rightarrow> int \<Rightarrow> int \<Rightarrow> int \<Rightarrow> int \<Rightarrow> error + Conv2d" where
  "Conv2d_init in_chs out_chs k s p g =
     (if g \<le> 0 then Inl ValueError
      else if in_chs mod g \<noteq> 0 then Inl ValueError
      else if out_chs mod g \<noteq> 0 then Inl ValueError
      else if out_chs < 0 \<or> in_chs div g < 0 \<or> k < 0 then Inl RuntimeError
      else Inr \<lparr>in_channels = in_chs, out_channels = out_chs, conv_kernel_size = k,
                conv_stride = s, conv_padding = p, conv_groups = g\<rparr>)"

text \<open>\<^verbatim>\<open>nn.Linear(in_features, out_features)\<close>.\<close>

record Linear =
  in_features :: int
  out_features :: int

definition Linear_init :: "int \<Rightarrow> int \<Rightarrow> error + Linear" where
  "Linear_init i out =
     (if i < 0 \<or> out < 0 then Inl RuntimeError
      else Inr \<lparr>in_features = i, out_features = out\<rparr>)"

text \<open>
  Modelled from the spec: \<^verbatim>\<open>timm.models.layers.LayerNorm\<close> is not among the source
  files; it is the "affine normalization over the last/channel axis" of the
  specification, constructed from the channel count.
\<close>

record LayerNorm =
  normalized_shape :: int

definition LayerNorm_init :: "int \<Rightarrow> error + LayerNorm" where
  "LayerNorm_init n =
     (if n < 0 then Inl RuntimeError else Inr \<lparr>normalized_shape = n\<rparr>)"

text \<open>
  Modelled from the spec: \<^verbatim>\<open>LayerScale\<close> (imported from \<^verbatim>\<open>.vision_transformer\<close>) is not
  among the source files; it is the "learned per-channel vector" that rescales the
  result channel-wise. Its constructor takes the channel count and an optional initial
  value; \<open>None\<close> records that the caller passed none, so that the class's own default is
  used.
\<close>

record LayerScale =
  ls_dim :: int
  ls_init_values :: "real option"

definition LayerScale_init :: "int \<Rightarrow> real option \<Rightarrow> LayerScale" where
  "LayerScale_init d init_values = \<lparr>ls_dim = d, ls_init_values = init_values\<rparr>"

text \<open>
  Modelled from the spec: \<^verbatim>\<open>DropPath\<close> (from \<^verbatim>\<open>timm.models.layers\<close>) is not among the
  source files; it is the stochastic-depth operator, constructed from its drop rate.
\<close>

record DropPath =
  drop_prob :: real

definition DropPath_init :: "real \<Rightarrow> DropPath" where
  "DropPath_init p = \<lparr>drop_prob = p\<rparr>"

subsection \<open>Interpretation of the tensor primitives\<close>

text \<open>
  A forward pass is written once, over a record of the primitives it calls. Each
  primitive may raise (a shape mismatch is a \<^verbatim>\<open>RuntimeError\<close>). \<open>op_split\<close> and
  \<open>op_cat\<close> act along the last axis (\<^verbatim>\<open>dim=-1\<close>).
\<close>

record 't tensor_ops =
  op_conv2d :: "Conv2d \<Rightarrow> 't \<Rightarrow> error + 't"
  op_linear :: "Linear \<Rightarrow> 't \<Rightarrow> error + 't"
  op_layer_norm :: "LayerNorm \<Rightarrow> 't \<Rightarrow> error + 't"
  op_act :: "'t \<Rightarrow> error + 't"
  op_permute :: "'t \<Rightarrow> nat list \<Rightarrow> error + 't"
  op_split :: "'t \<Rightarrow> int list \<Rightarrow> error + 't list"
  op_cat :: "'t list \<Rightarrow> error + 't"
  op_mul :: "'t \<Rightarrow> 't \<Rightarrow> error + 't"
  op_add :: "'t \<Rightarrow> 't \<Rightarrow> error + 't"
  op_layer_scale :: "LayerScale \<Rightarrow> 't \<Rightarrow> error + 't"
  op_drop_path :: "DropPath \<Rightarrow> 't \<Rightarrow> error + 't"

subsection \<open>Stem\<close>

record Stem =
  stem_conv1 :: Conv2d
  stem_norm1 :: "LayerNorm option"
  stem_conv2 :: Conv2d
  stem_norm2 :: LayerNorm

definition Stem_init :: "int \<Rightarrow> int \<Rightarrow> bool \<Rightarrow> error + Stem" where
  "Stem_init in_chs out_chs mid_norm =
     bind_r (Conv2d_init in_chs (out_chs div 2) 3 2 1 1) (\<lambda>conv1.
     bind_r (if mid_norm
             then bind_r (LayerNorm_init (out_chs div 2)) (\<lambda>n. Inr (Some n))
             else Inr None) (\<lambda>norm1.
     bind_r (Conv2d_init (out_chs div 2) out_chs 3 2 1 1) (\<lambda>conv2.
     bind_r (LayerNorm_init out_chs) (\<lambda>norm2.
     Inr \<lparr>stem_conv1 = conv1, stem_norm1 = norm1, stem_conv2 = conv2,
          stem_norm2 = norm2\<rparr>))))"

definition Stem_forward :: "'t tensor_ops \<Rightarrow> Stem \<Rightarrow> 't \<Rightarrow> error + 't" where
  "Stem_forward ops m x =
     bind_r (op_conv2d ops (stem_conv1 m) x) (\<lambda>x.
     bind_r (case stem_norm1 m of
               Some n \<Rightarrow>
                 bind_r (op_permute ops x [0, 2, 3, 1]) (\<lambda>x.
                 bind_r (op_layer_norm ops n x) (\<lambda>x.
                 op_permute ops x [0, 3, 1, 2]))
             | None \<Rightarrow> Inr x) (\<lambda>x.
     bind_r (op_act ops x) (\<lambda>x.
     bind_r (op_conv2d ops (stem_conv2 m) x) (\<lambda>x.
     bind_r (op_permute ops x [0, 2, 3, 1]) (\<lambda>x.
     op_layer_norm ops (stem_norm2 m) x)))))"

subsection \<open>Downsample and DownsampleNormFirst\<close>

record DownsampleNormFirst =
  dnf_norm :: LayerNorm
  dnf_conv :: Conv2d

definition DownsampleNormFirst_init :: "int \<Rightarrow> int \<Rightarrow> error + DownsampleNormFirst" where
  "DownsampleNormFirst_init in_chs out_chs =
     bind_r (LayerNorm_init in_chs) (\<lambda>n.
     bind_r (Conv2d_init in_chs out_chs 3 2 1 1) (\<lambda>c.
     Inr \<lparr>dnf_norm = n, dnf_conv = c\<rparr>))"

definition DownsampleNormFirst_forward ::
  "'t tensor_ops \<Rightarrow> DownsampleNormFirst \<Rightarrow> 't \<Rightarrow> error + 't" where
  "DownsampleNormFirst_forward ops m x =
     bind_r (op_layer_norm ops (dnf_norm m) x) (\<lambda>x.
     bind_r (op_permute ops x [0, 3, 1, 2]) (\<lambda>x.
     bind_r (op_conv2d ops (dnf_conv m) x) (\<lambda>x.
     op_permute ops x [0, 2, 3, 1])))"

record Downsample =
  ds_conv :: Conv2d
  ds_norm :: LayerNorm

definition Downsample_init :: "int \<Rightarrow> int \<Rightarrow> error + Downsample" where
  "Downsample_init in_chs out_chs =
     bind_r (Conv2d_init in_chs out_chs 3 2 1 1) (\<lambda>c.
     bind_r (LayerNorm_init out_chs) (\<lambda>n.
     Inr \<lparr>ds_conv = c, ds_norm = n\<rparr>))"

definition Downsample_forward :: "'t tensor_ops \<Rightarrow> Downsample \<Rightarrow> 't \<Rightarrow> error + 't" where
  "Downsample_forward ops m x =
     bind_r (op_permute ops x [0, 3, 1, 2]) (\<lambda>x.
     bind_r (op_conv2d ops (ds_conv m) x) (\<lambda>x.
     bind_r (op_permute ops x [0, 2, 3, 1]) (\<lambda>x.
     op_layer_norm ops (ds_norm m) x)))"

subsection \<open>MlpHead\<close>

record MlpHead =
  head_fc1 :: Linear
  head_norm :: LayerNorm
  head_fc2 :: Linear
  head_dropout :: real

text \<open>\<^verbatim>\<open>nn.Dropout(p)\<close> raises \<^verbatim>\<open>ValueError\<close> unless \<open>0 \<le> p \<le> 1\<close>.\<close>

definition Dropout_init :: "real \<Rightarrow> error + real" where
  "Dropout_init p = (if p < 0 \<or> 1 < p then Inl ValueError else Inr p)"

text \<open>
  \<open>mlp_ratio\<close> is an int (its default is \<open>4\<close>, and \<^verbatim>\<open>MambaOut\<close> passes none), so
  \<^verbatim>\<open>int(mlp_ratio * dim)\<close> is the exact product.
\<close>

definition MlpHead_init :: "int \<Rightarrow> int \<Rightarrow> int \<Rightarrow> real \<Rightarrow> error + MlpHead" where
  "MlpHead_init d num_classes mlp_ratio drop_rate =
     (let hidden_features = mlp_ratio * d in
      bind_r (Linear_init d hidden_features) (\<lambda>fc1.
      bind_r (LayerNorm_init hidden_features) (\<lambda>n.
      bind_r (Linear_init hidden_features num_classes) (\<lambda>fc2.
      bind_r (Dropout_init drop_rate) (\<lambda>dropout.
      Inr \<lparr>head_fc1 = fc1, head_norm = n, head_fc2 = fc2,
           head_dropout = dropout\<rparr>)))))"

subsection \<open>Module slots\<close>

text \<open>
  An attribute such as \<^verbatim>\<open>self.ls\<close>, \<^verbatim>\<open>self.drop_path\<close> or \<^verbatim>\<open>self.downsample\<close> holds one
  of several module classes; \<^verbatim>\<open>nn.Identity\<close> returns its argument.
\<close>

datatype module =
    Identity
  | LayerScale_module LayerScale
  | DropPath_module DropPath
  | Downsample_module Downsample
  | DownsampleNormFirst_module DownsampleNormFirst

fun module_forward :: "'t tensor_ops \<Rightarrow> module \<Rightarrow> 't \<Rightarrow> error + 't" where
  "module_forward ops Identity x = Inr x"
| "module_forward ops (LayerScale_module m) x = op_layer_scale ops m x"
| "module_forward ops (DropPath_module m) x = op_drop_path ops m x"
| "module_forward ops (Downsample_module m) x = Downsample_forward ops m x"
| "module_forward ops (DownsampleNormFirst_module m) x = DownsampleNormFirst_forward ops m x"

subsection \<open>GatedConvBlock\<close>

record GatedConvBlock =
  block_norm :: LayerNorm
  block_fc1 :: Linear
  split_indices :: "int list"
  block_conv :: Conv2d
  block_fc2 :: Linear
  block_ls :: module
  block_drop_path :: module

text \<open>
  The two widths computed in \<^verbatim>\<open>GatedConvBlock.__init__\<close>, \<^verbatim>\<open>int(expansion_ratio * dim)\<close>
  and \<^verbatim>\<open>int(conv_ratio * dim)\<close>, where they are defined.
\<close>

definition hidden_of :: "real \<Rightarrow> int \<Rightarrow> int" where
  "hidden_of expansion_ratio d = py_int (float_product expansion_ratio d)"

definition conv_channels_of :: "real \<Rightarrow> int \<Rightarrow> int" where
  "conv_channels_of conv_ratio d = py_int (float_product conv_ratio d)"

definition GatedConvBlock_init ::
  "int \<Rightarrow> real \<Rightarrow> int \<Rightarrow> real \<Rightarrow> real option \<Rightarrow> real \<Rightarrow> error + GatedConvBlock" where
  "GatedConvBlock_init d expansion_ratio kernel_size conv_ratio ls_init_value drop_path =
     bind_r (LayerNorm_init d) (\<lambda>n.
     bind_r (int_of_product expansion_ratio d) (\<lambda>hidden.
     bind_r (Linear_init d (hidden * 2)) (\<lambda>fc1.
     bind_r (int_of_product conv_ratio d) (\<lambda>conv_channels.
     bind_r (Conv2d_init conv_channels conv_channels kernel_size 1 (kernel_size div 2)
               conv_channels) (\<lambda>conv.
     bind_r (Linear_init hidden d) (\<lambda>fc2.
     Inr \<lparr>block_norm = n, block_fc1 = fc1,
          split_indices = [hidden, hidden - conv_channels, conv_channels],
          block_conv = conv, block_fc2 = fc2,
          block_ls = (if ls_init_value \<noteq> None
                      then LayerScale_module (LayerScale_init d None) else Identity),
          block_drop_path = (if drop_path > 0
                             then DropPath_module (DropPath_init drop_path)
                             else Identity)\<rparr>))))))"

text \<open>
  \<^verbatim>\<open>g, i, c = torch.split(x, self.split_indices, dim=-1)\<close> unpacks exactly three
  tensors; any other count raises \<^verbatim>\<open>ValueError\<close>.
\<close>

definition GatedConvBlock_forward ::
  "'t tensor_ops \<Rightarrow> GatedConvBlock \<Rightarrow> 't \<Rightarrow> error + 't" where
  "GatedConvBlock_forward ops m x =
     (let shortcut = x in
      bind_r (op_layer_norm ops (block_norm m) x) (\<lambda>x.
      bind_r (op_linear ops (block_fc1 m) x) (\<lambda>x.
      bind_r (op_split ops x (split_indices m)) (\<lambda>parts.
      case parts of
        [g, i, c] \<Rightarrow>
          bind_r (op_permute ops c [0, 3, 1, 2]) (\<lambda>c.
          bind_r (op_conv2d ops (block_conv m) c) (\<lambda>c.
          bind_r (op_permute ops c [0, 2, 3, 1]) (\<lambda>c.
          bind_r (op_act ops g) (\<lambda>a.
          bind_r (op_cat ops [i, c]) (\<lambda>ic.
          bind_r (op_mul ops a ic) (\<lambda>x.
          bind_r (op_linear ops (block_fc2 m) x) (\<lambda>x.
          bind_r (module_forward ops (block_ls m) x) (\<lambda>x.
          bind_r (module_forward ops (block_drop_path m) x) (\<lambda>x.
          op_add ops x shortcut)))))))))
      | _ \<Rightarrow> Inl ValueError))))"

subsection \<open>MambaOutStage\<close>

record MambaOutStage =
  grad_checkpointing :: bool
  stage_downsample :: module
  stage_blocks :: "GatedConvBlock list"

text \<open>
  \<^verbatim>\<open>dim_out = dim_out or dim\<close>: a missing (\<open>None\<close>) or zero \<open>dim_out\<close> is falsy and is
  replaced by \<open>dim\<close>.
\<close>

definition dim_out_or :: "int option \<Rightarrow> int \<Rightarrow> int" where
  "dim_out_or dim_out d =
     (case dim_out of None \<Rightarrow> d | Some v \<Rightarrow> if v = 0 then d else v)"

definition MambaOutStage_init ::
  "int \<Rightarrow> int option \<Rightarrow> int \<Rightarrow> real \<Rightarrow> int \<Rightarrow> real \<Rightarrow> bool \<Rightarrow> real option \<Rightarrow>
   real scalar_or_seq \<Rightarrow> error + MambaOutStage" where
  "MambaOutStage_init d dim_out depth expansion_ratio kernel_size conv_ratio downsample
       ls_init_value drop_path =
     (let dim_out = dim_out_or dim_out d in
      bind_r (if downsample
              then bind_r (Downsample_init d dim_out) (\<lambda>m. Inr (Downsample_module m))
              else if d = dim_out then Inr Identity
              else Inl AssertionError) (\<lambda>ds.
      bind_r (mapM_r (\<lambda>j.
                bind_r (case drop_path of
                          Seq rates \<Rightarrow> getitem rates j
                        | Scalar rate \<Rightarrow> Inr rate) (\<lambda>rate.
                GatedConvBlock_init dim_out expansion_ratio kernel_size conv_ratio
                  ls_init_value rate))
              [0 ..< nat depth]) (\<lambda>blocks.
      Inr \<lparr>grad_checkpointing = False, stage_downsample = ds,
           stage_blocks = blocks\<rparr>)))"

text \<open>\<^verbatim>\<open>nn.Sequential\<close> applies its modules in order.\<close>

definition Sequential_forward ::
  "'t tensor_ops \<Rightarrow> GatedConvBlock list \<Rightarrow> 't \<Rightarrow> error + 't" where
  "Sequential_forward ops blocks x = foldM_r (GatedConvBlock_forward ops) blocks x"

text \<open>
  Modelled from the spec: \<^verbatim>\<open>checkpoint_seq\<close> (from \<^verbatim>\<open>._manipulate\<close>) is not among the
  source files; it evaluates the block sequence "with no change in output values",
  recomputing activations during the backward pass only.
\<close>

definition checkpoint_seq ::
  "'t tensor_ops \<Rightarrow> GatedConvBlock list \<Rightarrow> 't \<Rightarrow> error + 't" where
  "checkpoint_seq ops blocks x = Sequential_forward ops blocks x"

text \<open>The forward pass in eager mode (\<^verbatim>\<open>torch.jit.is_scripting()\<close> is false).\<close>

definition MambaOutStage_forward ::
  "'t tensor_ops \<Rightarrow> MambaOutStage \<Rightarrow> 't \<Rightarrow> error + 't" where
  "MambaOutStage_forward ops m x =
     bind_r (module_forward ops (stage_downsample m) x) (\<lambda>x.
     if grad_checkpointing m
     then checkpoint_seq ops (stage_blocks m) x
     else Sequential_forward ops (stage_blocks m) x)"

subsection \<open>MambaOut\<close>

record MambaOut =
  num_classes :: int
  drop_rate :: real
  num_stage :: nat
  stem :: Stem
  stages :: "MambaOutStage list"
  mo_norm :: LayerNorm
  head :: MlpHead

definition as_list :: "'a scalar_or_seq \<Rightarrow> 'a list" where
  "as_list v = (case v of Seq xs \<Rightarrow> xs | Scalar x \<Rightarrow> [x])"

text \<open>
  \<^verbatim>\<open>dp_rates = [x.tolist() for x in torch.linspace(0, drop_path_rate,
  sum(depths)).split(depths)]\<close>: the flattened schedule, and its per-stage slices.
\<close>

definition dp_flat :: "linspace_kernel \<Rightarrow> real \<Rightarrow> int list \<Rightarrow> error + real list" where
  "dp_flat krn drop_path_rate depths =
     linspace krn 0 drop_path_rate (sum_list depths)"

definition dp_rates :: "linspace_kernel \<Rightarrow> real \<Rightarrow> int list \<Rightarrow> error + real list list" where
  "dp_rates krn drop_path_rate depths =
     bind_r (dp_flat krn drop_path_rate depths) (\<lambda>flat. torch_split flat depths)"

text \<open>
  The loop \<^verbatim>\<open>for i in range(num_stage)\<close> of \<^verbatim>\<open>MambaOut.__init__\<close>, over the remaining
  indices; its state is \<open>prev_dim\<close> and the stages appended so far (the counter
  \<^verbatim>\<open>cur\<close> is never read). \<^verbatim>\<open>MambaOutStage\<close> is called without \<open>expansion_ratio\<close>,
  so its default \<open>8 / 3\<close> applies.
\<close>

fun build_stages ::
  "int list \<Rightarrow> int list \<Rightarrow> real list list \<Rightarrow> int \<Rightarrow> real \<Rightarrow> real option \<Rightarrow>
   nat list \<Rightarrow> int \<Rightarrow> MambaOutStage list \<Rightarrow> error + (int \<times> MambaOutStage list)" where
  "build_stages depths dims rates kernel_size conv_ratio ls_init_value [] prev_dim acc =
     Inr (prev_dim, acc)"
| "build_stages depths dims rates kernel_size conv_ratio ls_init_value (i # is) prev_dim acc =
     bind_r (getitem dims i) (\<lambda>d.
     bind_r (getitem depths i) (\<lambda>depth.
     bind_r (getitem rates i) (\<lambda>rate.
     bind_r (MambaOutStage_init prev_dim (Some d) depth (8 / 3) kernel_size conv_ratio
               (i > 0) ls_init_value (Seq rate)) (\<lambda>stage.
     build_stages depths dims rates kernel_size conv_ratio ls_init_value is d
       (acc @ [stage])))))"

text \<open>
  \<^verbatim>\<open>MambaOut.__init__\<close>, on a device whose \<^verbatim>\<open>linspace\<close> kernel is \<open>krn\<close>. Extra
  keyword arguments (\<^verbatim>\<open>**kwargs\<close>) are accepted and never read. The stem is built as
  \<^verbatim>\<open>Stem(in_chans, dims[0], act_layer=..., norm_layer=...)\<close>: \<open>mid_norm\<close> is not passed
  and takes its default \<open>True\<close>. The head is built as
  \<^verbatim>\<open>head_fn(prev_dim, num_classes, drop_rate=drop_rate)\<close>, with the default
  \<open>mlp_ratio = 4\<close>.
\<close>

definition MambaOut_init ::
  "linspace_kernel \<Rightarrow> int \<Rightarrow> int \<Rightarrow> int scalar_or_seq \<Rightarrow> int scalar_or_seq \<Rightarrow> real \<Rightarrow> int \<Rightarrow>
   real option \<Rightarrow> real \<Rightarrow> real \<Rightarrow> (string \<times> 'k) list \<Rightarrow> error + MambaOut" where
  "MambaOut_init krn in_chans n_classes depths dims conv_ratio kernel_size ls_init_value
       drop_path_rate drop_rt kwargs =
     (let depths = as_list depths; dims = as_list dims; n = length depths in
      bind_r (getitem dims 0) (\<lambda>dim0.
      bind_r (Stem_init in_chans dim0 True) (\<lambda>st.
      bind_r (dp_rates krn drop_path_rate depths) (\<lambda>rates.
      bind_r (build_stages depths dims rates kernel_size conv_ratio ls_init_value
                [0 ..< n] dim0 []) (\<lambda>(prev_dim, sts).
      bind_r (LayerNorm_init prev_dim) (\<lambda>nrm.
      bind_r (MlpHead_init prev_dim n_classes 4 drop_rt) (\<lambda>hd.
      Inr \<lparr>num_classes = n_classes, drop_rate = drop_rt, num_stage = n, stem = st,
           stages = sts, mo_norm = nrm, head = hd\<rparr>)))))))"

definition forward_features :: "'t tensor_ops \<Rightarrow> MambaOut \<Rightarrow> 't \<Rightarrow> error + 't" where
  "forward_features ops m x =
     bind_r (Stem_forward ops (stem m) x) (\<lambda>x.
     foldM_r (MambaOutStage_forward ops) (stages m) x)"

subsection \<open>The primitives on shapes\<close>

text \<open>
  The shape of a tensor is the list of its dimension sizes. The interpretation below
  gives, for each primitive, the shape of its result, or the \<^verbatim>\<open>RuntimeError\<close> torch
  raises on a shape mismatch. Convolutions take batched (rank 4, channel-first) input
  and need at least one output channel per group;
  the concatenated tensors here always have rank 4, so the rule that skips empty
  rank-1 tensors is not modelled.
\<close>

type_synonym shape = "nat list"

definition conv_out :: "Conv2d \<Rightarrow> nat \<Rightarrow> int" where
  "conv_out c h =
     (int h + 2 * conv_padding c - conv_kernel_size c) div conv_stride c + 1"

definition sh_conv2d :: "Conv2d \<Rightarrow> shape \<Rightarrow> error + shape" where
  "sh_conv2d c s =
     (case s of
        [b, ch, h, w] \<Rightarrow>
          if int ch \<noteq> in_channels c then Inl RuntimeError
          else if conv_stride c < 1 \<or> conv_kernel_size c < 1 \<or> conv_padding c < 0
            then Inl RuntimeError
          else if out_channels c < conv_groups c then Inl RuntimeError
          else if int h + 2 * conv_padding c < conv_kernel_size c
                  \<or> int w + 2 * conv_padding c < conv_kernel_size c
            then Inl RuntimeError
          else Inr [b, nat (out_channels c), nat (conv_out c h), nat (conv_out c w)]
      | _ \<Rightarrow> Inl RuntimeError)"

definition sh_linear :: "Linear \<Rightarrow> shape \<Rightarrow> error + shape" where
  "sh_linear l s =
     (if s = [] then Inl RuntimeError
      else if int (last s) \<noteq> in_features l then Inl RuntimeError
      else Inr (butlast s @ [nat (out_features l)]))"

definition sh_layer_norm :: "LayerNorm \<Rightarrow> shape \<Rightarrow> error + shape" where
  "sh_layer_norm n s =
     (if s = [] then Inl RuntimeError
      else if int (last s) \<noteq> normalized_shape n then Inl RuntimeError
      else Inr s)"

definition sh_permute :: "shape \<Rightarrow> nat list \<Rightarrow> error + shape" where
  "sh_permute s perm =
     (if length perm = length s \<and> distinct perm \<and> list_all (\<lambda>i. i < length s) perm
      then Inr (map (\<lambda>i. s ! i) perm)
      else Inl RuntimeError)"

definition sh_split :: "shape \<Rightarrow> int list \<Rightarrow> error + shape list" where
  "sh_split s sizes =
     (if s = [] then Inl RuntimeError
      else case torch_split (replicate (last s) ()) sizes of
             Inl e \<Rightarrow> Inl e
           | Inr parts \<Rightarrow> Inr (map (\<lambda>p. butlast s @ [length p]) parts))"

definition sh_cat :: "shape list \<Rightarrow> error + shape" where
  "sh_cat ss =
     (case ss of
        [] \<Rightarrow> Inl RuntimeError
      | s # rest \<Rightarrow>
          if s = [] then Inl RuntimeError
          else if list_all (\<lambda>t. t \<noteq> [] \<and> butlast t = butlast s) rest
            then Inr (butlast s @ [sum_list (map last ss)])
          else Inl RuntimeError)"

text \<open>Broadcasting of two shapes, aligned at the last axis (the lists are reversed).\<close>

fun broadcast_rev :: "nat list \<Rightarrow> nat list \<Rightarrow> nat list option" where
  "broadcast_rev [] ys = Some ys"
| "broadcast_rev (x # xs) [] = Some (x # xs)"
| "broadcast_rev (x # xs) (y # ys) =
     (if x = y \<or> y = 1 then map_option ((#) x) (broadcast_rev xs ys)
      else if x = 1 then map_option ((#) y) (broadcast_rev xs ys)
      else None)"

definition sh_broadcast :: "shape \<Rightarrow> shape \<Rightarrow> error + shape" where
  "sh_broadcast a b =
     (case broadcast_rev (rev a) (rev b) of
        None \<Rightarrow> Inl RuntimeError
      | Some r \<Rightarrow> Inr (rev r))"

definition shape_ops :: "shape tensor_ops" where
  "shape_ops =
     \<lparr>op_conv2d = sh_conv2d, op_linear = sh_linear, op_layer_norm = sh_layer_norm,
      op_act = Inr, op_permute = sh_permute, op_split = sh_split, op_cat = sh_cat,
      op_mul = sh_broadcast, op_add = sh_broadcast,
      op_layer_scale = (\<lambda>m s. sh_broadcast s [nat (ls_dim m)]),
      op_drop_path = (\<lambda>m s. Inr s)\<rparr>"

subsection \<open>The residual path as the specification words it\<close>

text \<open>
  The block's output without any scaling: the shortcut added to the second projection
  of the activated gate times the concatenation of the identity part and the
  depthwise-convolved part. The sum is written in the order of the source,
  \<^verbatim>\<open>x + shortcut\<close>.
\<close>

definition unscaled_residual :: "'t tensor_ops \<Rightarrow> GatedConvBlock \<Rightarrow> 't \<Rightarrow> error + 't" where
  "unscaled_residual ops m shortcut =
     bind_r (op_layer_norm ops (block_norm m) shortcut) (\<lambda>n.
     bind_r (op_linear ops (block_fc1 m) n) (\<lambda>e.
     bind_r (op_split ops e (split_indices m)) (\<lambda>parts.
     case parts of
       [gate, identity_part, conv_part] \<Rightarrow>
         bind_r (op_permute ops conv_part [0, 3, 1, 2]) (\<lambda>c.
         bind_r (op_conv2d ops (block_conv m) c) (\<lambda>c.
         bind_r (op_permute ops c [0, 2, 3, 1]) (\<lambda>convolved.
         bind_r (op_act ops gate) (\<lambda>a.
         bind_r (op_cat ops [identity_part, convolved]) (\<lambda>ic.
         bind_r (op_mul ops a ic) (\<lambda>p.
         bind_r (op_linear ops (block_fc2 m) p) (\<lambda>y.
         op_add ops y shortcut)))))))
     | _ \<Rightarrow> Inl ValueError)))"

subsection \<open>Example modules\<close>

text \<open>
  The block \<^verbatim>\<open>GatedConvBlock(dim=4, expansion_ratio=2, kernel_size=7, conv_ratio=1.0)\<close>,
  built without and with a layer-scale initial value.
\<close>

definition blk4_plain :: GatedConvBlock where
  "blk4_plain = \<lparr>block_norm = \<lparr>normalized_shape = 4\<rparr>,
        block_fc1 = \<lparr>in_features = 4, out_features = 16\<rparr>,
        split_indices = [8, 4, 4],
        block_conv =
          \<lparr>in_channels = 4, out_channels = 4, conv_kernel_size = 7,
             conv_stride = 1, conv_padding = 3, conv_groups = 4\<rparr>,
        block_fc2 = \<lparr>in_features = 8, out_features = 4\<rparr>,
        block_ls = Identity, block_drop_path = Identity\<rparr>"

definition blk4 :: GatedConvBlock where
  "blk4 = \<lparr>block_norm = \<lparr>normalized_shape = 4\<rparr>,
        block_fc1 = \<lparr>in_features = 4, out_features = 16\<rparr>,
        split_indices = [8, 4, 4],
        block_conv =
          \<lparr>in_channels = 4, out_channels = 4, conv_kernel_size = 7,
             conv_stride = 1, conv_padding = 3, conv_groups = 4\<rparr>,
        block_fc2 = \<lparr>in_features = 8, out_features = 4\<rparr>,
        block_ls = LayerScale_module \<lparr>ls_dim = 4, ls_init_values = None\<rparr>, block_drop_path = Identity\<rparr>"

text \<open>
  \<^verbatim>\<open>GatedConvBlock(dim=4, expansion_ratio=0.5, conv_ratio=1.0)\<close>, whose convolved width
  exceeds its hidden width, and \<^verbatim>\<open>GatedConvBlock(dim=4, expansion_ratio=1, conv_ratio=1.0)\<close>,
  whose identity part has width 0.
\<close>

definition blk4_narrow :: GatedConvBlock where
  "blk4_narrow =
     \<lparr>block_norm = \<lparr>normalized_shape = 4\<rparr>,
      block_fc1 = \<lparr>in_features = 4, out_features = 4\<rparr>,
      split_indices = [2, - 2, 4],
      block_conv = \<lparr>in_channels = 4, out_channels = 4, conv_kernel_size = 7,
                     conv_stride = 1, conv_padding = 3, conv_groups = 4\<rparr>,
      block_fc2 = \<lparr>in_features = 2, out_features = 4\<rparr>,
      block_ls = Identity, block_drop_path = Identity\<rparr>"

definition blk4_square :: GatedConvBlock where
  "blk4_square =
     \<lparr>block_norm = \<lparr>normalized_shape = 4\<rparr>,
      block_fc1 = \<lparr>in_features = 4, out_features = 8\<rparr>,
      split_indices = [4, 0, 4],
      block_conv = \<lparr>in_channels = 4, out_channels = 4, conv_kernel_size = 7,
                     conv_stride = 1, conv_padding = 3, conv_groups = 4\<rparr>,
      block_fc2 = \<lparr>in_features = 4, out_features = 4\<rparr>,
      block_ls = Identity, block_drop_path = Identity\<rparr>"

text \<open>\<^verbatim>\<open>GatedConvBlock(dim=5, expansion_ratio=1.75, conv_ratio=0.75)\<close>.\<close>

definition blk5 :: GatedConvBlock where
  "blk5 =
     \<lparr>block_norm = \<lparr>normalized_shape = 5\<rparr>,
      block_fc1 = \<lparr>in_features = 5, out_features = 16\<rparr>,
      split_indices = [8, 5, 3],
      block_conv = \<lparr>in_channels = 3, out_channels = 3, conv_kernel_size = 7,
                     conv_stride = 1, conv_padding = 3, conv_groups = 3\<rparr>,
      block_fc2 = \<lparr>in_features = 8, out_features = 5\<rparr>,
      block_ls = Identity, block_drop_path = Identity\<rparr>"

section \<open>Properties\<close>

subsection \<open>Rounding and truncation\<close>

lemma finite64_code [code]:
  "finite64 x \<longleftrightarrow>
     \<bar>x\<bar> < 179769313486231590772930519078902473361797697894230657273430081157732675805500963132708477322407536021120113879871393357658789768814416622492847430639474124377767893424865485276302219601246094119453082952085005768838150682342462881473913110540827237163350510684586298239947245938479716304835356329624224137216"
  by (simp add: finite64_def)

lemma py_round_lower: "of_int a \<le> x \<Longrightarrow> a \<le> py_round x"
proof -
  assume "of_int a \<le> x"
  then have "a \<le> \<lfloor>x\<rfloor>" by (simp add: le_floor_iff)
  then show ?thesis by (simp add: py_round_def)
qed

lemma py_round_upper: "x \<le> of_int b \<Longrightarrow> py_round x \<le> b"
proof -
  assume b: "x \<le> of_int b"
  show ?thesis
  proof (cases "x = of_int \<lfloor>x\<rfloor>")
    case True
    then have "py_round x = \<lfloor>x\<rfloor>" by (simp add: py_round_def)
    moreover from b have "\<lfloor>x\<rfloor> \<le> b" by (simp add: floor_le_iff)
    ultimately show ?thesis by simp
  next
    case False
    then have "of_int \<lfloor>x\<rfloor> < x" by linarith
    with b have "\<lfloor>x\<rfloor> < b" by linarith
    then show ?thesis by (simp add: py_round_def)
  qed
qed

lemma py_round_mono: "x \<le> y \<Longrightarrow> py_round x \<le> py_round y"
proof -
  assume xy: "x \<le> y"
  then have fl: "\<lfloor>x\<rfloor> \<le> \<lfloor>y\<rfloor>" by (rule floor_mono)
  show ?thesis
  proof (cases "\<lfloor>x\<rfloor> = \<lfloor>y\<rfloor>")
    case True
    with xy have "x - of_int \<lfloor>x\<rfloor> \<le> y - of_int \<lfloor>y\<rfloor>" by simp
    with True show ?thesis unfolding py_round_def by (simp split: if_splits) linarith?
  next
    case False
    with fl have "\<lfloor>x\<rfloor> + 1 \<le> \<lfloor>y\<rfloor>" by simp
    moreover have "py_round x \<le> \<lfloor>x\<rfloor> + 1" by (simp add: py_round_def)
    moreover have "\<lfloor>y\<rfloor> \<le> py_round y" by (simp add: py_round_def)
    ultimately show ?thesis by linarith
  qed
qed

lemma py_round_small: "0 \<le> x \<Longrightarrow> x < 1 / 2 \<Longrightarrow> py_round x = 0"
proof -
  assume a: "0 \<le> x" "x < 1 / 2"
  then have "\<lfloor>x\<rfloor> = 0" by linarith
  with a show ?thesis by (simp add: py_round_def)
qed

lemma py_round_nonneg: "0 \<le> x \<Longrightarrow> 0 \<le> py_round x"
  using py_round_lower[of 0 x] by simp

lemma round_pos_nonneg: "0 < x \<Longrightarrow> 0 \<le> round_pos p q x"
  unfolding round_pos_def Let_def
  by (intro mult_nonneg_nonneg) (simp_all add: py_round_nonneg)

lemma halvings_bounds: "1 \<le> x \<Longrightarrow> 2 ^ halvings x \<le> x \<and> x < 2 ^ Suc (halvings x)"
proof (induction x rule: halvings.induct)
  case (1 x)
  show ?case
  proof (cases "2 \<le> x")
    case True
    then have "1 \<le> x / 2" by simp
    from "1.IH"[OF True this] True show ?thesis by (simp add: halvings.simps[of x])
  next
    case False
    with "1.prems" show ?thesis by (simp add: halvings.simps[of x])
  qed
qed

lemma doublings_bounds:
  "0 < x \<Longrightarrow> x < 1 \<Longrightarrow> 1 \<le> 2 ^ doublings x * x \<and> 2 ^ doublings x * x < 2"
proof (induction x rule: doublings.induct)
  case (1 x)
  show ?case
  proof (cases "2 * x < 1")
    case True
    from "1.IH"[of] "1.prems" True show ?thesis by (simp add: doublings.simps[of x] mult.assoc)
  next
    case False
    then have "doublings (2 * x) = 0" by (simp add: doublings.simps[of "2 * x"])
    with "1.prems" False show ?thesis by (simp add: doublings.simps[of x])
  qed
qed

lemma float_exponent_bounds:
  assumes "0 < x"
  shows "2 powi float_exponent x \<le> x" "x < 2 powi (float_exponent x + 1)"
proof -
  show "2 powi float_exponent x \<le> x"
  proof (cases "1 \<le> x")
    case True
    with halvings_bounds[OF True] show ?thesis by (simp add: float_exponent_def)
  next
    case False
    with assms doublings_bounds[of x] have "1 \<le> 2 ^ doublings x * x" by simp
    then have "1 / 2 ^ doublings x \<le> x" by (simp add: field_simps)
    with False show ?thesis by (simp add: float_exponent_def power_int_minus field_simps)
  qed
  show "x < 2 powi (float_exponent x + 1)"
  proof (cases "1 \<le> x")
    case True
    with halvings_bounds[OF True] show ?thesis
      by (simp add: float_exponent_def power_int_add)
  next
    case False
    with assms doublings_bounds[of x] have "2 ^ doublings x * x < 2" by simp
    then have "x < 2 / 2 ^ doublings x" by (simp add: field_simps)
    moreover have "(2::real) powi (1 - int (doublings x)) = 2 / 2 ^ doublings x"
      by (simp add: power_int_diff)
    ultimately show ?thesis using False by (simp add: float_exponent_def)
  qed
qed

lemma round_pos_upper:
  assumes "0 < x"
  shows "round_pos p q x \<le> 2 powi (float_exponent x + 1)"
proof -
  let ?e = "float_exponent x"
  let ?k = "max (?e - int p + 1) q"
  let ?u = "(2::real) powi ?k"
  have u: "0 < ?u" by simp
  have x: "x < 2 powi (?e + 1)" by (rule float_exponent_bounds[OF assms])
  show ?thesis
  proof (cases "?k \<le> ?e + 1")
    case True
    then obtain n where n: "?e + 1 - ?k = int n" using nonneg_int_cases[of "?e + 1 - ?k"] by auto
    have "(2::real) powi (?e + 1) = 2 powi (int n + ?k)" using n by (simp add: algebra_simps)
    also have "\<dots> = 2 ^ n * ?u" by (simp add: power_int_add)
    finally have split: "(2::real) powi (?e + 1) = of_int (2 ^ n) * ?u" by simp
    with x u have "x / ?u \<le> of_int (2 ^ n)" by (simp add: field_simps)
    then have "py_round (x / ?u) \<le> 2 ^ n" by (rule py_round_upper)
    then have "of_int (py_round (x / ?u)) * ?u \<le> of_int (2 ^ n) * ?u"
      using u by (simp add: mult_right_mono)
    with split show ?thesis by (simp add: round_pos_def Let_def)
  next
    case False
    then have "?e + 1 < ?k" by simp
    then have "(2::real) powi (?e + 1) \<le> 2 powi (?k - 1)" by (intro power_int_increasing) simp_all
    also have "\<dots> = ?u / 2" by (simp add: power_int_diff)
    finally have "x < ?u / 2" using x by simp
    with u assms have "x / ?u < 1 / 2" "0 \<le> x / ?u" by (simp_all add: field_simps)
    then have "py_round (x / ?u) = 0" using py_round_small by blast
    then show ?thesis by (simp add: round_pos_def Let_def)
  qed
qed

lemma round_pos_lower:
  assumes "0 < x" and "q \<le> float_exponent x - int p + 1" and "1 \<le> p"
  shows "2 powi float_exponent x \<le> round_pos p q x"
proof -
  let ?e = "float_exponent x"
  let ?k = "?e - int p + 1"
  let ?u = "(2::real) powi ?k"
  have k: "max ?k q = ?k" using assms(2) by simp
  have u: "0 < ?u" by simp
  have x: "2 powi ?e \<le> x" by (rule float_exponent_bounds[OF assms(1)])
  from assms(3) obtain n where n: "p = Suc n" by (cases p) auto
  have "(2::real) powi ?e = 2 powi (int n + ?k)" using n by (simp add: algebra_simps)
  also have "\<dots> = 2 ^ n * ?u" by (simp add: power_int_add)
  finally have split: "(2::real) powi ?e = of_int (2 ^ n) * ?u" by simp
  with x u have "of_int (2 ^ n) \<le> x / ?u" by (simp add: field_simps)
  then have "2 ^ n \<le> py_round (x / ?u)" by (rule py_round_lower)
  then have "of_int (2 ^ n) * ?u \<le> of_int (py_round (x / ?u)) * ?u"
    using u by (simp add: mult_right_mono)
  with split show ?thesis by (simp add: round_pos_def Let_def k)
qed

lemma float_exponent_mono:
  assumes "0 < x" "x \<le> y"
  shows "float_exponent x \<le> float_exponent y"
proof -
  from assms have y: "0 < y" by simp
  have "(2::real) powi float_exponent x \<le> x" by (rule float_exponent_bounds[OF assms(1)])
  also have "x \<le> y" by fact
  also have "y < 2 powi (float_exponent y + 1)" by (rule float_exponent_bounds[OF y])
  finally have lt: "(2::real) powi float_exponent x < 2 powi (float_exponent y + 1)" .
  have "float_exponent x < float_exponent y + 1"
  proof (rule ccontr)
    assume "\<not> float_exponent x < float_exponent y + 1"
    then have "(2::real) powi (float_exponent y + 1) \<le> 2 powi float_exponent x"
      by (intro power_int_increasing) simp_all
    with lt show False by simp
  qed
  then show ?thesis by simp
qed

lemma round_pos_mono:
  assumes "0 < x" "x \<le> y" "1 \<le> p"
  shows "round_pos p q x \<le> round_pos p q y"
proof -
  from assms have y: "0 < y" by simp
  let ?ex = "float_exponent x" and ?ey = "float_exponent y"
  let ?kx = "max (?ex - int p + 1) q" and ?ky = "max (?ey - int p + 1) q"
  have e: "?ex \<le> ?ey" by (rule float_exponent_mono[OF assms(1,2)])
  show ?thesis
  proof (cases "?kx = ?ky")
    case True
    have "x / 2 powi ?ky \<le> y / 2 powi ?ky" using assms(2) by (simp add: divide_right_mono)
    then have "py_round (x / 2 powi ?ky) \<le> py_round (y / 2 powi ?ky)" by (rule py_round_mono)
    then have "of_int (py_round (x / 2 powi ?ky)) * (2::real) powi ?ky
        \<le> of_int (py_round (y / 2 powi ?ky)) * 2 powi ?ky"
      by (simp add: mult_right_mono)
    then show ?thesis unfolding round_pos_def Let_def True .
  next
    case False
    with e have lt: "?ex < ?ey" and q: "q \<le> ?ey - int p + 1" by (auto simp: max_def split: if_splits)
    have "round_pos p q x \<le> 2 powi (?ex + 1)" by (rule round_pos_upper[OF assms(1)])
    also have "\<dots> \<le> 2 powi ?ey" using lt by (intro power_int_increasing) simp_all
    also have "\<dots> \<le> round_pos p q y" by (rule round_pos_lower[OF y q assms(3)])
    finally show ?thesis .
  qed
qed

lemma round_to_mono:
  assumes "x \<le> y" "1 \<le> p"
  shows "round_to p q x \<le> round_to p q y"
proof -
  consider "0 < x" | "x = 0" | "x < 0" "0 \<le> y" | "x < 0" "y < 0" by linarith
  then show ?thesis
  proof cases
    case 1
    with assms show ?thesis by (simp add: round_to_def round_pos_mono)
  next
    case 2
    with assms(1) show ?thesis by (auto simp: round_to_def round_pos_nonneg)
  next
    case 3
    then have "round_to p q x \<le> 0" using round_pos_nonneg[of "- x" p q] by (simp add: round_to_def)
    moreover from 3 have "0 \<le> round_to p q y" by (auto simp: round_to_def round_pos_nonneg)
    ultimately show ?thesis by simp
  next
    case 4
    with assms have "round_pos p q (- y) \<le> round_pos p q (- x)" by (intro round_pos_mono) simp_all
    with 4 show ?thesis by (simp add: round_to_def)
  qed
qed

lemma fl64_mono: "x \<le> y \<Longrightarrow> fl64 x \<le> fl64 y"
  unfolding fl64_def by (rule round_to_mono) simp_all

lemma fl64_nonneg: "0 \<le> x \<Longrightarrow> 0 \<le> fl64 x"
  using fl64_mono[of 0 x] by (simp add: fl64_def round_to_def)

lemma py_int_nonneg: "0 \<le> x \<Longrightarrow> py_int x = \<lfloor>x\<rfloor>"
  by (simp add: py_int_def)

lemma py_int_abs_le: "\<bar>real_of_int (py_int x)\<bar> \<le> \<bar>x\<bar>"
proof (cases "0 \<le> x")
  case True
  then have "0 \<le> \<lfloor>x\<rfloor>" by simp
  with True show ?thesis by (simp add: py_int_def)
next
  case False
  then have "\<lceil>x\<rceil> \<le> 0" by (simp add: ceiling_le_iff)
  moreover have "x \<le> real_of_int \<lceil>x\<rceil>" by (rule le_of_int_ceiling)
  ultimately show ?thesis using False by (simp add: py_int_def)
qed

lemma py_int_close: "\<bar>x - real_of_int (py_int x)\<bar> < 1"
proof (cases "0 \<le> x")
  case True
  then have "py_int x = \<lfloor>x\<rfloor>" by (simp add: py_int_def)
  then show ?thesis unfolding abs_less_iff by linarith
next
  case False
  then have "py_int x = \<lceil>x\<rceil>" by (simp add: py_int_def)
  then show ?thesis unfolding abs_less_iff by linarith
qed

lemma py_int_mono: "x \<le> y \<Longrightarrow> py_int x \<le> py_int y"
proof (cases "0 \<le> x")
  case True
  assume "x \<le> y"
  with True show ?thesis by (simp add: py_int_def floor_mono)
next
  case False
  assume xy: "x \<le> y"
  show ?thesis
  proof (cases "0 \<le> y")
    case True
    from False have "\<lceil>x\<rceil> \<le> 0" by (simp add: ceiling_le_iff)
    moreover from True have "0 \<le> \<lfloor>y\<rfloor>" by simp
    ultimately have "\<lceil>x\<rceil> \<le> \<lfloor>y\<rfloor>" by (rule order_trans)
    then show ?thesis using False True by (simp add: py_int_def)
  next
    case y: False
    with False xy show ?thesis by (simp add: py_int_def ceiling_mono)
  qed
qed


lemma float_product_mono:
  assumes "0 \<le> d" "r \<le> s"
  shows "float_product r d \<le> float_product s d"
proof -
  have "0 \<le> fl64 (of_int d)" using assms(1) by (simp add: fl64_nonneg)
  moreover have "fl64 r \<le> fl64 s" by (rule fl64_mono[OF assms(2)])
  ultimately have "fl64 r * fl64 (of_int d) \<le> fl64 s * fl64 (of_int d)"
    by (rule mult_right_mono[rotated])
  then show ?thesis unfolding float_product_def by (rule fl64_mono)
qed

lemma widths_ordered:
  assumes "0 \<le> d" "cr \<le> er"
  shows "conv_channels_of cr d \<le> hidden_of er d"
  unfolding conv_channels_of_def hidden_of_def
  by (rule py_int_mono[OF float_product_mono[OF assms]])

lemma int_of_product_Inr:
  "int_of_product r d = Inr h \<Longrightarrow> h = py_int (float_product r d)"
  by (auto simp: int_of_product_def float_product_def Let_def split: if_splits)

lemma block_init_widths:
  assumes "GatedConvBlock_init d er k cr ls dp = Inr blk"
  shows "out_features (block_fc1 blk) = 2 * hidden_of er d"
    and "in_features (block_fc2 blk) = hidden_of er d"
    and "in_channels (block_conv blk) = conv_channels_of cr d"
    and "split_indices blk
          = [hidden_of er d, hidden_of er d - conv_channels_of cr d, conv_channels_of cr d]"
  using assms
  by (auto simp: GatedConvBlock_init_def bind_r_def LayerNorm_init_def Linear_init_def
        Conv2d_init_def hidden_of_def conv_channels_of_def
        split: sum.splits if_splits dest!: int_of_product_Inr)

text \<open>
  Claim C2, as the specification states it: \<open>hidden\<close> and \<open>conv_channels\<close> are the
  products \<open>expansion_ratio \<times> dim\<close> and \<open>conv_ratio \<times> dim\<close> rounded to the nearest integer
  whenever the product is not an integer. The source computes both with \<^verbatim>\<open>int(...)\<close>.
  At \<open>dim = 5\<close> with \<open>expansion_ratio = 1.75\<close> and \<open>conv_ratio = 0.75\<close> the products are
  \<open>8.75\<close> and \<open>3.75\<close>: the block gets the widths 8 and 3, rounding would give 9 and 4.
\<close>

theorem widths_not_rounded:
  "hidden_of (7 / 4) 5 = 8 \<and> py_round (float_product (7 / 4) 5) = 9
   \<and> conv_channels_of (3 / 4) 5 = 3 \<and> py_round (float_product (3 / 4) 5) = 4
   \<and> map_sum id split_indices (GatedConvBlock_init 5 (7 / 4) 7 (3 / 4) None 0)
       = Inr [8, 5, 3]"
  by code_simp

text \<open>
  Claim C2, amended: \<open>hidden\<close> and \<open>conv_channels\<close> are the double-precision products
  \<^verbatim>\<open>expansion_ratio * dim\<close> and \<^verbatim>\<open>conv_ratio * dim\<close> truncated toward zero: each width lies
  between zero and its product, less than one away from it; a constructed block has
  these widths in its projections, its convolution and its split sizes.
\<close>

theorem widths_truncate_toward_zero:
  "\<bar>real_of_int (hidden_of er d)\<bar> \<le> \<bar>float_product er d\<bar>
   \<and> \<bar>float_product er d - real_of_int (hidden_of er d)\<bar> < 1
   \<and> \<bar>real_of_int (conv_channels_of cr d)\<bar> \<le> \<bar>float_product cr d\<bar>
   \<and> \<bar>float_product cr d - real_of_int (conv_channels_of cr d)\<bar> < 1
   \<and> (GatedConvBlock_init d er k cr ls dp = Inr blk \<longrightarrow>
        out_features (block_fc1 blk) = 2 * hidden_of er d
      \<and> in_features (block_fc2 blk) = hidden_of er d
      \<and> in_channels (block_conv blk) = conv_channels_of cr d
      \<and> split_indices blk
          = [hidden_of er d, hidden_of er d - conv_channels_of cr d, conv_channels_of cr d])"
  unfolding hidden_of_def conv_channels_of_def
  using py_int_abs_le py_int_close
    block_init_widths[of d er k cr ls dp blk, unfolded hidden_of_def conv_channels_of_def]
  by blast

theorem widths_truncate_toward_zero_witness:
  "GatedConvBlock_init 5 (7 / 4) 7 (3 / 4) None 0 = Inr blk5
   \<and> float_product (7 / 4) 5 = 35 / 4 \<and> hidden_of (7 / 4) 5 = 8
   \<and> float_product (3 / 4) 5 = 15 / 4 \<and> conv_channels_of (3 / 4) 5 = 3
   \<and> out_features (block_fc1 blk5) = 16 \<and> in_features (block_fc2 blk5) = 8
   \<and> in_channels (block_conv blk5) = 3 \<and> split_indices blk5 = [8, 5, 3]"
proof -
  have e: "GatedConvBlock_init 5 (7 / 4) 7 (3 / 4) None 0 = Inr blk5" by code_simp
  have w: "float_product (7 / 4) 5 = 35 / 4" "hidden_of (7 / 4) 5 = 8"
    "float_product (3 / 4) 5 = 15 / 4" "conv_channels_of (3 / 4) 5 = 3"
    by code_simp+
  from widths_truncate_toward_zero[where d = 5 and er = "7 / 4" and k = 7 and cr = "3 / 4"
      and ls = None and dp = 0 and blk = blk5] e w
  show ?thesis by simp
qed

subsection \<open>The drop-path schedule\<close>

lemma chunks_concat: "sum_list ns = length xs \<Longrightarrow> concat (chunks xs ns) = xs"
  by (induction ns arbitrary: xs) auto

lemma chunks_lengths: "sum_list ns = length xs \<Longrightarrow> map length (chunks xs ns) = ns"
  by (induction ns arbitrary: xs) auto

lemma sum_list_nat: "\<forall>z \<in> set zs. 0 \<le> z \<Longrightarrow> sum_list (map nat zs) = nat (sum_list zs)"
  by (induction zs) (auto simp: nat_add_distrib sum_list_nonneg)

lemma torch_split_ok:
  assumes "\<forall>z \<in> set sizes. 0 \<le> z" "sum_list sizes = int (length xs)"
  shows "torch_split xs sizes = Inr (chunks xs (map nat sizes))"
  using assms by (auto simp: torch_split_def)







subsection \<open>Evaluation of constructors\<close>

lemma bind_r_Inr: "bind_r m f = Inr y \<longleftrightarrow> (\<exists>v. m = Inr v \<and> f v = Inr y)"
  by (cases m) (simp_all add: bind_r_def)

lemma bind_r_simps: "bind_r (Inr v) f = f v" "bind_r (Inl e) f = Inl e"
  by (simp_all add: bind_r_def)

lemma getitem_0: "getitem xs 0 = Inr v \<Longrightarrow> v = hd xs"
  by (cases xs) (simp_all add: getitem_def)

lemmas leaf_init_defs = LayerNorm_init_def Linear_init_def Conv2d_init_def LayerScale_init_def
  DropPath_init_def Dropout_init_def

lemmas init_defs = MambaOut_init_def MambaOutStage_init_def GatedConvBlock_init_def
  Stem_init_def Downsample_init_def MlpHead_init_def leaf_init_defs
  dim_out_or_def as_list_def getitem_def bind_r_def Let_def

lemma not_isl_Inr: "\<not> isl r \<Longrightarrow> \<exists>v. r = Inr v"
  by (cases r) simp_all

lemma net8_ok:
  "\<exists>m. MambaOut_init linspace_scalar32 3 10 (Seq [1]) (Seq [8]) 1 7 None 0 0
         ([] :: (string \<times> unit) list) = Inr m"
proof (rule not_isl_Inr)
  show "\<not> isl (MambaOut_init linspace_scalar32 3 10 (Seq [1]) (Seq [8]) 1 7 None 0 0
                 ([] :: (string \<times> unit) list))"
    by code_simp
qed

lemma blk4_plain_eval: "GatedConvBlock_init 4 2 7 1 None 0 = Inr blk4_plain"
  by code_simp

lemma widths_4: "int_of_product 2 4 = Inr 8" "int_of_product 1 4 = Inr 4"
  by code_simp+

lemma blk_eval: "GatedConvBlock_init 4 2 7 1 (Some v) 0 = Inr blk4"
  by (simp add: GatedConvBlock_init_def widths_4 LayerNorm_init_def Linear_init_def
       Conv2d_init_def LayerScale_init_def bind_r_def blk4_def)

lemma block_init_slots:
  assumes "GatedConvBlock_init d er k cr ls dp = Inr b"
  shows "block_ls b = (if ls = None then Identity
                       else LayerScale_module \<lparr>ls_dim = d, ls_init_values = None\<rparr>)"
    and "block_drop_path b = (if 0 < dp then DropPath_module \<lparr>drop_prob = dp\<rparr> else Identity)"
  using assms
  by (auto simp: GatedConvBlock_init_def bind_r_Inr LayerScale_init_def DropPath_init_def)

subsection \<open>Layer scale and stochastic depth switched off\<close>

text \<open>
  Claim C4: a block constructed with drop-path rate 0 and no layer-scale initial value
  has \<^verbatim>\<open>nn.Identity\<close> in both slots; each of the two steps returns its argument
  unchanged, and the block's output is the unscaled residual path, for every
  interpretation of the primitives and every input.
\<close>

theorem block_without_scaling:
  assumes "GatedConvBlock_init d er k cr None 0 = Inr b"
  shows "block_ls b = Identity \<and> block_drop_path b = Identity
     \<and> module_forward ops (block_ls b) y = Inr y
     \<and> module_forward ops (block_drop_path b) y = Inr y
     \<and> GatedConvBlock_forward ops b x = unscaled_residual ops b x"
proof -
  from block_init_slots[OF assms] have slots: "block_ls b = Identity" "block_drop_path b = Identity"
    by simp_all
  have "GatedConvBlock_forward ops b x = unscaled_residual ops b x"
    unfolding GatedConvBlock_forward_def unscaled_residual_def Let_def slots
      module_forward.simps bind_r_simps ..
  with slots show ?thesis by simp
qed

theorem block_without_scaling_witness:
  "GatedConvBlock_init 4 2 7 1 None 0 = Inr blk4_plain
   \<and> block_ls blk4_plain = Identity \<and> block_drop_path blk4_plain = Identity
   \<and> GatedConvBlock_forward shape_ops blk4_plain [1, 2, 2, 4]
       = unscaled_residual shape_ops blk4_plain [1, 2, 2, 4]
   \<and> unscaled_residual shape_ops blk4_plain [1, 2, 2, 4] = Inr [1, 2, 2, 4]"
proof -
  have "unscaled_residual shape_ops blk4_plain [1, 2, 2, 4] = Inr [1, 2, 2, 4]"
    by (simp add: unscaled_residual_def blk4_plain_def shape_ops_def sh_layer_norm_def
          sh_linear_def sh_split_def torch_split_def sh_permute_def sh_conv2d_def
          conv_out_def sh_cat_def sh_broadcast_def bind_r_def)
  with block_without_scaling[OF blk4_plain_eval, where ops = shape_ops and x = "[1, 2, 2, 4]"]
    blk4_plain_eval
  show ?thesis by simp
qed

subsection \<open>The layer-scale initial value\<close>

lemma block_init_ls_value:
  "GatedConvBlock_init d er k cr (Some v) = GatedConvBlock_init d er k cr (Some w)"
  by (rule ext) (simp add: GatedConvBlock_init_def)

lemma stage_init_ls_value:
  "MambaOutStage_init d dout depth er k cr ds (Some v) dps
     = MambaOutStage_init d dout depth er k cr ds (Some w) dps"
  by (simp add: MambaOutStage_init_def block_init_ls_value[where v = v and w = w])

lemma build_stages_ls_value:
  "build_stages depths dims rates k cr (Some v) is prev acc
     = build_stages depths dims rates k cr (Some w) is prev acc"
proof (induction "is" arbitrary: prev acc)
  case Nil
  show ?case by simp
next
  case (Cons i "is")
  show ?case
    by (simp add: stage_init_ls_value[where v = v and w = w] Cons.IH)
qed

lemma network_init_ls_value:
  "MambaOut_init krn ic nc depths dims cr k (Some v) dpr dr kw
     = MambaOut_init krn ic nc depths dims cr k (Some w) dpr dr kw"
  by (simp add: MambaOut_init_def build_stages_ls_value[where v = v and w = w])

text \<open>
  Claim C9: two constructions that differ only in the value of a non-\<open>None\<close>
  \<open>ls_init_value\<close> build the same block, the same stage and the same network, hence the
  same forward function. The \<^verbatim>\<open>LayerScale\<close> module is created from the channel count
  alone, so it takes its own default initial value; a \<open>None\<close> value gives
  \<^verbatim>\<open>nn.Identity\<close> instead.
\<close>

theorem ls_init_value_never_forwarded:
  "GatedConvBlock_init d er k cr (Some v) dp = GatedConvBlock_init d er k cr (Some w) dp
   \<and> MambaOutStage_init d dout depth er k cr ds (Some v) dps
       = MambaOutStage_init d dout depth er k cr ds (Some w) dps
   \<and> MambaOut_init krn ic nc depths dims cr k (Some v) dpr dr kw
       = MambaOut_init krn ic nc depths dims cr k (Some w) dpr dr kw
   \<and> (GatedConvBlock_init d er k cr (Some v) dp = Inr b1
        \<and> GatedConvBlock_init d er k cr (Some w) dp = Inr b2
      \<longrightarrow> b1 = b2
        \<and> block_ls b1 = LayerScale_module \<lparr>ls_dim = d, ls_init_values = None\<rparr>
        \<and> GatedConvBlock_forward ops b1 x = GatedConvBlock_forward ops b2 x)
   \<and> (GatedConvBlock_init d er k cr None dp = Inr b0 \<longrightarrow> block_ls b0 = Identity)"
proof -
  have same: "GatedConvBlock_init d er k cr (Some v) dp = GatedConvBlock_init d er k cr (Some w) dp"
    by (simp add: block_init_ls_value[where v = v and w = w])
  have "b1 = b2 \<and> block_ls b1 = LayerScale_module \<lparr>ls_dim = d, ls_init_values = None\<rparr>
        \<and> GatedConvBlock_forward ops b1 x = GatedConvBlock_forward ops b2 x"
    if "GatedConvBlock_init d er k cr (Some v) dp = Inr b1"
       "GatedConvBlock_init d er k cr (Some w) dp = Inr b2"
    using that same block_init_slots(1)[OF that(1)] by simp
  moreover have "block_ls b0 = Identity" if "GatedConvBlock_init d er k cr None dp = Inr b0"
    using block_init_slots(1)[OF that] by simp
  ultimately show ?thesis
    using same stage_init_ls_value[where v = v and w = w]
      network_init_ls_value[where v = v and w = w] by blast
qed

theorem ls_init_value_never_forwarded_witness:
  "GatedConvBlock_init 4 2 7 1 (Some (1 / 1000000)) 0 = Inr blk4
   \<and> GatedConvBlock_init 4 2 7 1 (Some 1) 0 = Inr blk4
   \<and> block_ls blk4 = LayerScale_module \<lparr>ls_dim = 4, ls_init_values = None\<rparr>
   \<and> MambaOut_init linspace_scalar32 3 10 (Seq [1]) (Seq [8]) 1 7 (Some (1 / 1000000)) 0 0 ([] :: (string \<times> unit) list)
       = MambaOut_init linspace_scalar32 3 10 (Seq [1]) (Seq [8]) 1 7 (Some 1) 0 0 ([] :: (string \<times> unit) list)"
  using ls_init_value_never_forwarded[where d = 4 and er = 2 and k = 7 and cr = 1
         and v = "1 / 1000000" and w = 1 and dp = 0 and ic = 3 and nc = 10
         and depths = "Seq [1]" and dims = "Seq [8]" and dpr = 0 and dr = 0
         and kw = "[] :: (string \<times> unit) list" and ?b1.0 = blk4 and ?b2.0 = blk4]
    blk_eval
  by simp

subsection \<open>The stem's mid-normalization\<close>

lemma network_init_stem:
  assumes "MambaOut_init krn ic nc depths dims cr k ls dpr dr kw = Inr m"
  shows "Stem_init ic (hd (as_list dims)) True = Inr (stem m)"
proof -
  from assms obtain dim0 st where d0: "getitem (as_list dims) 0 = Inr dim0"
    and st: "Stem_init ic dim0 True = Inr st" and m: "stem m = st"
    by (auto simp: MambaOut_init_def Let_def bind_r_Inr)
  from getitem_0[OF d0] st m show ?thesis by simp
qed

lemma stem_init_norm1:
  assumes "Stem_init i out mid = Inr s"
  shows "stem_norm1 s = (if mid then Some \<lparr>normalized_shape = out div 2\<rparr> else None)"
  using assms
  by (auto simp: Stem_init_def bind_r_Inr LayerNorm_init_def split: if_splits)

text \<open>
  Claim C10: every constructed network has the stem's mid-normalization enabled:
  \<open>norm1\<close> is a \<^verbatim>\<open>LayerNorm\<close> over half the first stage's width and the stem's forward
  pass applies it between the two convolutions. A stem without it exists only through
  \<^verbatim>\<open>Stem\<close>'s own \<open>mid_norm\<close> argument, which the network never passes.
\<close>

theorem stem_mid_norm_always_enabled:
  "(MambaOut_init krn ic nc depths dims cr k ls dpr dr kw = Inr m \<longrightarrow>
      stem_norm1 (stem m) = Some \<lparr>normalized_shape = hd (as_list dims) div 2\<rparr>
    \<and> Stem_forward ops (stem m) x =
        bind_r (op_conv2d ops (stem_conv1 (stem m)) x) (\<lambda>x.
        bind_r (op_permute ops x [0, 2, 3, 1]) (\<lambda>x.
        bind_r (op_layer_norm ops \<lparr>normalized_shape = hd (as_list dims) div 2\<rparr> x) (\<lambda>x.
        bind_r (op_permute ops x [0, 3, 1, 2]) (\<lambda>x.
        bind_r (op_act ops x) (\<lambda>x.
        bind_r (op_conv2d ops (stem_conv2 (stem m)) x) (\<lambda>x.
        bind_r (op_permute ops x [0, 2, 3, 1]) (\<lambda>x.
        op_layer_norm ops (stem_norm2 (stem m)) x))))))))
   \<and> (Stem_init i out False = Inr s \<longrightarrow> stem_norm1 s = None)"
proof -
  have "stem_norm1 (stem m) = Some \<lparr>normalized_shape = hd (as_list dims) div 2\<rparr>"
    if "MambaOut_init krn ic nc depths dims cr k ls dpr dr kw = Inr m"
    using stem_init_norm1[OF network_init_stem[OF that]] by simp
  moreover have "stem_norm1 s = None" if "Stem_init i out False = Inr s"
    using stem_init_norm1[OF that] by simp
  ultimately show ?thesis
    by (auto simp: Stem_forward_def bind_r_def split: sum.splits)
qed

theorem stem_mid_norm_always_enabled_witness:
  "\<exists>m. MambaOut_init linspace_scalar32 3 10 (Seq [1]) (Seq [8]) 1 7 None 0 0 ([] :: (string \<times> unit) list) = Inr m
       \<and> stem_norm1 (stem m) = Some \<lparr>normalized_shape = 4\<rparr>"
proof -
  obtain m where m: "MambaOut_init linspace_scalar32 3 10 (Seq [1]) (Seq [8]) 1 7 None 0 0 ([] :: (string \<times> unit) list) = Inr m"
    using net8_ok ..
  from stem_mid_norm_always_enabled[where m = m and dims = "Seq [8]" and ic = 3 and nc = 10
      and depths = "Seq [1]" and cr = 1 and k = 7 and ls = None and dpr = 0 and dr = 0
      and kw = "[] :: (string \<times> unit) list" and ops = shape_ops] m
  show ?thesis by (auto simp: as_list_def)
qed

subsection \<open>Downsampling between stages\<close>

lemma stage_init_downsample:
  assumes "MambaOutStage_init d dout depth er k cr ds ls dps = Inr s"
  shows "stage_downsample s = Identity \<or> (\<exists>m. stage_downsample s = Downsample_module m)"
  using assms
  by (auto simp: MambaOutStage_init_def Let_def bind_r_Inr split: if_splits)

lemma build_stages_downsample:
  assumes "build_stages depths dims rates k cr ls is prev acc = Inr (p, sts)"
    and "\<forall>s \<in> set acc. stage_downsample s = Identity \<or> (\<exists>m. stage_downsample s = Downsample_module m)"
  shows "\<forall>s \<in> set sts. stage_downsample s = Identity \<or> (\<exists>m. stage_downsample s = Downsample_module m)"
  using assms
proof (induction "is" arbitrary: prev acc)
  case Nil
  then show ?case by simp
next
  case (Cons i "is")
  from Cons.prems(1) obtain d depth rate stage where
    st: "MambaOutStage_init prev (Some d) depth (8 / 3) k cr (0 < i) ls (Seq rate) = Inr stage"
    and rest: "build_stages depths dims rates k cr ls is d (acc @ [stage]) = Inr (p, sts)"
    by (auto simp: bind_r_Inr)
  show ?case
    by (rule Cons.IH[OF rest]) (use Cons.prems(2) stage_init_downsample[OF st] in auto)
qed

lemma stages_never_norm_first:
  assumes "MambaOut_init krn ic nc depths dims cr k ls dpr dr kw = Inr m"
  shows "\<forall>s \<in> set (stages m). \<forall>dnf. stage_downsample s \<noteq> DownsampleNormFirst_module dnf"
proof -
  from assms obtain dim0 rates p where
    "build_stages (as_list depths) (as_list dims) rates k cr ls [0 ..< length (as_list depths)] dim0 []
       = Inr (p, stages m)"
    by (auto simp: MambaOut_init_def Let_def bind_r_Inr)
  from build_stages_downsample[OF this] show ?thesis by fastforce
qed

text \<open>
  Claim C6 states that a network-level construction choice selects the normalize-first
  downsampling. The class docstring of \<^verbatim>\<open>MambaOut\<close> documents a \<open>downsample_layers\<close>
  argument, and \<^verbatim>\<open>DownsampleNormFirst\<close> is defined, but the constructor has no such
  parameter: a keyword of that name is swallowed by \<^verbatim>\<open>**kwargs\<close>, and every stage after
  the first gets the convolve-then-normalize \<^verbatim>\<open>Downsample\<close>. The network below is
  built with depths \<open>[1, 1]\<close>, widths \<open>[8, 16]\<close> and that keyword.
\<close>

theorem downsample_always_conv_then_norm:
  "case MambaOut_init linspace_scalar32 3 10 (Seq [1, 1]) (Seq [8, 16]) 1 7 None 0 0
          [(''downsample_layers'', ''DownsampleNormFirst'')] of
     Inl e \<Rightarrow> False
   | Inr m \<Rightarrow>
       map stage_downsample (stages m) =
         [Identity,
          Downsample_module
            \<lparr>ds_conv = \<lparr>in_channels = 8, out_channels = 16, conv_kernel_size = 3,
                        conv_stride = 2, conv_padding = 1, conv_groups = 1\<rparr>,
             ds_norm = \<lparr>normalized_shape = 16\<rparr>\<rparr>]"
  by code_simp

subsection \<open>The dimension check of a stage\<close>

lemma mapM_r_no_assertion:
  assumes "\<And>x. f x \<noteq> Inl AssertionError"
  shows "mapM_r f xs \<noteq> Inl AssertionError"
  using assms by (induction xs) (auto simp: bind_r_def split: sum.splits)

lemma block_init_no_assertion: "GatedConvBlock_init d er k cr ls dp \<noteq> Inl AssertionError"
  by (auto simp: GatedConvBlock_init_def LayerNorm_init_def Linear_init_def Conv2d_init_def
      int_of_product_def bind_r_def Let_def split: sum.splits if_splits)

lemma downsample_init_no_assertion: "Downsample_init i out \<noteq> Inl AssertionError"
  by (auto simp: Downsample_init_def LayerNorm_init_def Conv2d_init_def
      bind_r_def split: sum.splits if_splits)

lemma downsample_init_ok:
  "0 \<le> i \<Longrightarrow> 0 \<le> out \<Longrightarrow> Downsample_init i out =
     Inr \<lparr>ds_conv = \<lparr>in_channels = i, out_channels = out, conv_kernel_size = 3,
                      conv_stride = 2, conv_padding = 1, conv_groups = 1\<rparr>,
           ds_norm = \<lparr>normalized_shape = out\<rparr>\<rparr>"
  by (simp add: Downsample_init_def LayerNorm_init_def Conv2d_init_def bind_r_def)

text \<open>
  Claim C8, as the specification states it: with downsampling enabled, construction
  succeeds for any pair of input and output dimensions.
  \<^verbatim>\<open>MambaOutStage(dim=8, dim_out=1, depth=1, conv_ratio=0.5, downsample=True)\<close> is not
  constructed: its block of width 1 has \<^verbatim>\<open>int(0.5 * 1) = 0\<close> convolved channels, and
  \<^verbatim>\<open>nn.Conv2d\<close> refuses a group count of 0.
\<close>

theorem downsampled_stage_construction_fails:
  "MambaOutStage_init 8 (Some 1) 1 (8 / 3) 7 (1 / 2) True None (Scalar 0) = Inl ValueError"
  by code_simp

text \<open>
  Claim C8, amended: without downsampling, construction fails with an assertion error
  whenever a declared (positive) output dimension differs from the input dimension;
  a stage that is constructed has the identity as its pre-block step, which returns
  its input unchanged. With downsampling the assertion is not evaluated: construction
  never fails with an assertion error, and for positive dimensions it succeeds, with a
  \<^verbatim>\<open>Downsample\<close> in front of the same blocks, whenever the stage of width \<open>dim_out\<close>
  without downsampling is constructed.
\<close>

theorem stage_dimension_check:
  "(\<not> downsample \<and> 0 < d' \<and> d' \<noteq> d \<longrightarrow>
      MambaOutStage_init d (Some d') depth er k cr downsample ls dps = Inl AssertionError)
   \<and> (\<not> downsample \<and> MambaOutStage_init d dim_out depth er k cr downsample ls dps = Inr s \<longrightarrow>
        stage_downsample s = Identity
      \<and> module_forward ops (stage_downsample s) x = Inr x)
   \<and> (downsample \<longrightarrow>
        MambaOutStage_init d dim_out depth er k cr downsample ls dps \<noteq> Inl AssertionError)
   \<and> (downsample \<and> 0 < d \<and> 0 < d' \<and>
        MambaOutStage_init d' (Some d') depth er k cr False ls dps = Inr s' \<longrightarrow>
        (\<exists>m. MambaOutStage_init d (Some d') depth er k cr downsample ls dps
               = Inr (s'\<lparr>stage_downsample := Downsample_module m\<rparr>)))"
proof -
  have p1: "MambaOutStage_init d (Some d') depth er k cr downsample ls dps = Inl AssertionError"
    if "\<not> downsample \<and> 0 < d' \<and> d' \<noteq> d"
    using that by (auto simp: MambaOutStage_init_def dim_out_or_def Let_def bind_r_def)
  have p2: "stage_downsample s = Identity
      \<and> module_forward ops (stage_downsample s) x = Inr x"
    if "\<not> downsample \<and> MambaOutStage_init d dim_out depth er k cr downsample ls dps = Inr s"
  proof -
    from that have "stage_downsample s = Identity"
      by (auto simp: MambaOutStage_init_def Let_def bind_r_Inr split: if_splits)
    then show ?thesis by simp
  qed
  have p3: "MambaOutStage_init d dim_out depth er k cr downsample ls dps \<noteq> Inl AssertionError"
    if downsample
  proof -
    let ?f = "\<lambda>j. bind_r (case dps of Seq rates \<Rightarrow> getitem rates j | Scalar rate \<Rightarrow> Inr rate)
          (\<lambda>rate. GatedConvBlock_init (dim_out_or dim_out d) er k cr ls rate)"
    have "?f j \<noteq> Inl AssertionError" for j
      using block_init_no_assertion
      by (auto simp: bind_r_def getitem_def split: sum.splits scalar_or_seq.splits if_splits)
    then have "mapM_r ?f [0 ..< nat depth] \<noteq> Inl AssertionError"
      by (rule mapM_r_no_assertion)
    with that downsample_init_no_assertion[of d "dim_out_or dim_out d"] show ?thesis
      by (auto simp: MambaOutStage_init_def Let_def bind_r_def split: sum.splits)
  qed
  have p4: "\<exists>m. MambaOutStage_init d (Some d') depth er k cr downsample ls dps
               = Inr (s'\<lparr>stage_downsample := Downsample_module m\<rparr>)"
    if "downsample \<and> 0 < d \<and> 0 < d' \<and>
        MambaOutStage_init d' (Some d') depth er k cr False ls dps = Inr s'"
    using that
    by (auto simp: MambaOutStage_init_def Let_def bind_r_Inr dim_out_or_def downsample_init_ok)
  show ?thesis using p1 p2 p3 p4 by blast
qed

lemma stage8_eval:
  "\<exists>s. MambaOutStage_init 8 (Some 8) 1 2 7 1 False None (Scalar 0) = Inr s"
  "\<exists>s. MambaOutStage_init 16 (Some 16) 1 2 7 1 False None (Scalar 0) = Inr s"
proof -
  have "\<not> isl (MambaOutStage_init 8 (Some 8) 1 2 7 1 False None (Scalar 0))"
    by code_simp
  then show "\<exists>s. MambaOutStage_init 8 (Some 8) 1 2 7 1 False None (Scalar 0) = Inr s"
    by (rule not_isl_Inr)
  have "\<not> isl (MambaOutStage_init 16 (Some 16) 1 2 7 1 False None (Scalar 0))"
    by code_simp
  then show "\<exists>s. MambaOutStage_init 16 (Some 16) 1 2 7 1 False None (Scalar 0) = Inr s"
    by (rule not_isl_Inr)
qed

theorem stage_dimension_check_witness:
  "MambaOutStage_init 8 (Some 16) 1 2 7 1 False None (Scalar 0) = Inl AssertionError
   \<and> (\<exists>s. MambaOutStage_init 8 (Some 8) 1 2 7 1 False None (Scalar 0) = Inr s
          \<and> stage_downsample s = Identity
          \<and> module_forward shape_ops (stage_downsample s) [1, 4, 4, 8] = Inr [1, 4, 4, 8])
   \<and> MambaOutStage_init 8 (Some 16) 1 2 7 1 True None (Scalar 0) \<noteq> Inl AssertionError
   \<and> (\<exists>s' m. MambaOutStage_init 16 (Some 16) 1 2 7 1 False None (Scalar 0) = Inr s'
          \<and> MambaOutStage_init 8 (Some 16) 1 2 7 1 True None (Scalar 0)
              = Inr (s'\<lparr>stage_downsample := Downsample_module m\<rparr>))"
proof -
  obtain s where s: "MambaOutStage_init 8 (Some 8) 1 2 7 1 False None (Scalar 0) = Inr s"
    using stage8_eval(1) ..
  obtain s' where s': "MambaOutStage_init 16 (Some 16) 1 2 7 1 False None (Scalar 0) = Inr s'"
    using stage8_eval(2) ..
  have "MambaOutStage_init 8 (Some 16) 1 2 7 1 False None (Scalar 0) = Inl AssertionError"
    using stage_dimension_check[where downsample = False and d' = 16 and d = 8
        and depth = 1 and er = 2 and k = 7 and cr = 1 and ls = None and dps = "Scalar 0"
        and ops = shape_ops]
    by simp
  moreover have "stage_downsample s = Identity
      \<and> module_forward shape_ops (stage_downsample s) [1, 4, 4, 8] = Inr [1, 4, 4, 8]"
    using stage_dimension_check[where downsample = False and dim_out = "Some 8" and d = 8
        and depth = 1 and er = 2 and k = 7 and cr = 1 and ls = None and dps = "Scalar 0"
        and s = s and ops = shape_ops and x = "[1, 4, 4, 8]"] s
    by simp
  moreover have "MambaOutStage_init 8 (Some 16) 1 2 7 1 True None (Scalar 0) \<noteq> Inl AssertionError"
    and "\<exists>m. MambaOutStage_init 8 (Some 16) 1 2 7 1 True None (Scalar 0)
              = Inr (s'\<lparr>stage_downsample := Downsample_module m\<rparr>)"
    using stage_dimension_check[where downsample = True and dim_out = "Some 16" and d = 8
        and d' = 16 and depth = 1 and er = 2 and k = 7 and cr = 1 and ls = None
        and dps = "Scalar 0" and s' = s' and ops = shape_ops] s'
    by simp_all
  ultimately show ?thesis using s s' by blast
qed

subsection \<open>Shapes through the primitives\<close>

lemma sh_split_ok:
  assumes "s \<noteq> []" "\<forall>z \<in> set sizes. 0 \<le> z" "sum_list sizes = int (last s)"
  shows "sh_split s sizes = Inr (map (\<lambda>z. butlast s @ [nat z]) sizes)"
proof -
  let ?xs = "replicate (last s) ()"
  have sum: "sum_list sizes = int (length ?xs)" using assms(3) by simp
  have "sum_list (map nat sizes) = length ?xs"
    using sum_list_nat[OF assms(2)] sum by simp
  then have "map length (chunks ?xs (map nat sizes)) = map nat sizes"
    by (rule chunks_lengths)
  then have "map (\<lambda>p. butlast s @ [length p]) (chunks ?xs (map nat sizes))
      = map (\<lambda>z. butlast s @ [nat z]) sizes"
    by (simp flip: map_map[of "\<lambda>n. butlast s @ [n]" length, unfolded comp_def])
  with torch_split_ok[OF assms(2) sum] assms(1) show ?thesis
    by (simp add: sh_split_def)
qed

lemma broadcast_rev_same: "broadcast_rev xs xs = Some xs"
  by (induction xs) auto

lemma sh_broadcast_same: "sh_broadcast s s = Inr s"
  by (simp add: sh_broadcast_def broadcast_rev_same)

lemma sh_broadcast_channel: "sh_broadcast [b, h, w, c] [c] = Inr [b, h, w, c]"
  by (simp add: sh_broadcast_def)

lemma sh_permute_cf:
  "sh_permute [b, h, w, c] [0, 3, 1, 2] = Inr [b, c, h, w]"
  "sh_permute [b, h, w, c] [0, 3, Suc 0, 2] = Inr [b, c, h, w]"
  by (simp_all add: sh_permute_def)

lemma sh_permute_cl:
  "sh_permute [b, c, h, w] [0, 2, 3, 1] = Inr [b, h, w, c]"
  "sh_permute [b, c, h, w] [0, 2, 3, Suc 0] = Inr [b, h, w, c]"
  by (simp_all add: sh_permute_def)

lemma block_init_fields:
  assumes "GatedConvBlock_init d er k cr ls dp = Inr b"
  shows "0 \<le> d" "0 \<le> hidden_of er d" "1 \<le> conv_channels_of cr d" "0 \<le> k"
    and "block_norm b = \<lparr>normalized_shape = d\<rparr>"
    and "block_fc1 b = \<lparr>in_features = d, out_features = hidden_of er d * 2\<rparr>"
    and "split_indices b = [hidden_of er d, hidden_of er d - conv_channels_of cr d,
                            conv_channels_of cr d]"
    and "block_conv b = \<lparr>in_channels = conv_channels_of cr d,
           out_channels = conv_channels_of cr d, conv_kernel_size = k, conv_stride = 1,
           conv_padding = k div 2, conv_groups = conv_channels_of cr d\<rparr>"
    and "block_fc2 b = \<lparr>in_features = hidden_of er d, out_features = d\<rparr>"
  using assms
  by (auto simp: GatedConvBlock_init_def bind_r_Inr LayerNorm_init_def Linear_init_def
        Conv2d_init_def hidden_of_def conv_channels_of_def
        split: if_splits dest!: int_of_product_Inr)

lemma conv_same_padding:
  assumes "odd k" "0 \<le> k" "1 \<le> h"
  shows "sh_conv2d \<lparr>in_channels = c, out_channels = c, conv_kernel_size = k, conv_stride = 1,
           conv_padding = k div 2, conv_groups = c\<rparr> [b, nat c, h, w]
         = (if 0 \<le> c \<and> 1 \<le> w then Inr [b, nat c, h, w] else Inl RuntimeError)"
proof -
  from assms(1) have pad: "2 * (k div 2) = k - 1" by presburger
  from assms(1,2) have k: "1 \<le> k" by presburger
  show ?thesis using pad k assms(3)
    by (auto simp: sh_conv2d_def conv_out_def)
qed

lemma module_slot_shape:
  assumes "m = Identity \<or> m = LayerScale_module \<lparr>ls_dim = d, ls_init_values = v\<rparr>
           \<or> m = DropPath_module p"
  shows "module_forward shape_ops m [b, h, w, nat d] = Inr [b, h, w, nat d]"
  using assms by (auto simp: shape_ops_def sh_broadcast_channel)

lemma block_forward_shape:
  assumes init: "GatedConvBlock_init d er k cr ls dp = Inr blk"
    and le: "conv_channels_of cr d \<le> hidden_of er d"
    and k: "odd k" and h: "1 \<le> h" and w: "1 \<le> w"
  shows "GatedConvBlock_forward shape_ops blk [b, h, w, nat d] = Inr [b, h, w, nat d]"
proof -
  note f = block_init_fields[OF init]
  let ?hid = "hidden_of er d" and ?cc = "conv_channels_of cr d"
  have n1: "sh_layer_norm (block_norm blk) [b, h, w, nat d] = Inr [b, h, w, nat d]"
    using f(1) by (simp add: f(5) sh_layer_norm_def)
  have l1: "sh_linear (block_fc1 blk) [b, h, w, nat d] = Inr [b, h, w, nat (?hid * 2)]"
    using f(1) by (simp add: f(6) sh_linear_def)
  have sp: "sh_split [b, h, w, nat (?hid * 2)] (split_indices blk)
      = Inr [[b, h, w, nat ?hid], [b, h, w, nat (?hid - ?cc)], [b, h, w, nat ?cc]]"
    unfolding f(7) using f(2,3) le by (subst sh_split_ok) simp_all
  have cv: "sh_conv2d (block_conv blk) [b, nat ?cc, h, w] = Inr [b, nat ?cc, h, w]"
    unfolding f(8) using conv_same_padding[OF k f(4) h] f(3) w by simp
  have ct: "sh_cat [[b, h, w, nat (?hid - ?cc)], [b, h, w, nat ?cc]] = Inr [b, h, w, nat ?hid]"
    using f(3) le by (simp add: sh_cat_def nat_diff_distrib)
  have l2: "sh_linear (block_fc2 blk) [b, h, w, nat ?hid] = Inr [b, h, w, nat d]"
    using f(2) by (simp add: f(9) sh_linear_def)
  have ls: "module_forward shape_ops (block_ls blk) [b, h, w, nat d] = Inr [b, h, w, nat d]"
    by (rule module_slot_shape) (use block_init_slots(1)[OF init] in auto)
  have dr: "module_forward shape_ops (block_drop_path blk) [b, h, w, nat d] = Inr [b, h, w, nat d]"
    by (rule module_slot_shape) (use block_init_slots(2)[OF init] in auto)
  have prims: "op_layer_norm shape_ops = sh_layer_norm" "op_linear shape_ops = sh_linear"
    "op_split shape_ops = sh_split" "op_permute shape_ops = sh_permute"
    "op_conv2d shape_ops = sh_conv2d" "op_act shape_ops = Inr" "op_cat shape_ops = sh_cat"
    "op_mul shape_ops = sh_broadcast" "op_add shape_ops = sh_broadcast"
    by (simp_all add: shape_ops_def)
  show ?thesis
    unfolding GatedConvBlock_forward_def Let_def prims
    by (simp add: n1 l1 sp cv ct l2 ls dr bind_r_simps sh_permute_cf sh_permute_cl
        sh_broadcast_same)
qed

lemma blk4_narrow_eval: "GatedConvBlock_init 4 (1 / 2) 7 1 None 0 = Inr blk4_narrow"
  by code_simp

lemma blk4_square_eval: "GatedConvBlock_init 4 1 7 1 None 0 = Inr blk4_square"
  by code_simp

subsection \<open>The channel split\<close>

text \<open>
  Claim C1, as the specification states it: for every constructed block the split is a
  partition of the \<open>2 \<times> hidden\<close> channels into slices of sizes \<open>hidden\<close>,
  \<open>hidden - conv_channels\<close> and \<open>conv_channels\<close>. The block
  \<^verbatim>\<open>GatedConvBlock(dim=4, expansion_ratio=0.5, conv_ratio=1.0)\<close> is constructed with
  \<open>split_indices = (2, -2, 4)\<close>; on its four expanded channels \<^verbatim>\<open>torch.split\<close> raises.
\<close>

theorem narrow_block_split_fails:
  "GatedConvBlock_init 4 (1 / 2) 7 1 None 0 = Inr blk4_narrow
   \<and> out_features (block_fc1 blk4_narrow) = 4
   \<and> split_indices blk4_narrow = [2, - 2, 4]
   \<and> torch_split [0, 1, 2, 3 :: nat] (split_indices blk4_narrow) = Inl RuntimeError"
  by (simp add: blk4_narrow_eval) (simp add: blk4_narrow_def torch_split_def)

text \<open>
  Claim C1, amended: for every constructed block the expansion projection has
  \<open>2 \<times> hidden\<close> output channels and the three split sizes add up to \<open>2 \<times> hidden\<close>; when
  \<open>conv_channels \<le> hidden\<close>, the split of \<open>2 \<times> hidden\<close> channels succeeds and yields three
  contiguous slices, in order gate, identity part, conv part, of sizes \<open>hidden\<close>,
  \<open>hidden - conv_channels\<close> and \<open>conv_channels\<close>, whose concatenation is the input: no
  channel is duplicated or dropped.
\<close>

theorem channel_split_partition:
  assumes "GatedConvBlock_init d er k cr ls dp = Inr blk"
  shows "out_features (block_fc1 blk) = 2 * hidden_of er d
       \<and> sum_list (split_indices blk) = 2 * hidden_of er d
       \<and> (conv_channels_of cr d \<le> hidden_of er d \<and> int (length xs) = 2 * hidden_of er d \<longrightarrow>
            (\<exists>g i c. torch_split xs (split_indices blk) = Inr [g, i, c]
                   \<and> g @ i @ c = xs
                   \<and> int (length g) = hidden_of er d
                   \<and> int (length i) = hidden_of er d - conv_channels_of cr d
                   \<and> int (length c) = conv_channels_of cr d)
          \<and> op_split shape_ops [b, h, w, length xs] (split_indices blk)
              = Inr [[b, h, w, nat (hidden_of er d)],
                     [b, h, w, nat (hidden_of er d - conv_channels_of cr d)],
                     [b, h, w, nat (conv_channels_of cr d)]])"
proof -
  note f = block_init_fields[OF assms]
  let ?hid = "hidden_of er d" and ?cc = "conv_channels_of cr d"
  let ?sizes = "[?hid, ?hid - ?cc, ?cc]"
  have a: "out_features (block_fc1 blk) = 2 * ?hid" by (simp add: f(6))
  have s: "sum_list (split_indices blk) = 2 * ?hid" by (simp add: f(7))
  have p: "(\<exists>g i c. torch_split xs (split_indices blk) = Inr [g, i, c]
                   \<and> g @ i @ c = xs
                   \<and> int (length g) = ?hid
                   \<and> int (length i) = ?hid - ?cc
                   \<and> int (length c) = ?cc)
          \<and> op_split shape_ops [b, h, w, length xs] (split_indices blk)
              = Inr [[b, h, w, nat ?hid], [b, h, w, nat (?hid - ?cc)], [b, h, w, nat ?cc]]"
    if le: "?cc \<le> ?hid" and len: "int (length xs) = 2 * ?hid"
  proof -
    have nonneg: "\<forall>z \<in> set ?sizes. 0 \<le> z" using f(2,3) le by simp
    have sum: "sum_list ?sizes = int (length xs)" using len by simp
    have sumn: "sum_list (map nat ?sizes) = length xs"
      using sum_list_nat[OF nonneg] sum by simp
    let ?parts = "chunks xs (map nat ?sizes)"
    have split: "torch_split xs (split_indices blk) = Inr ?parts"
      unfolding f(7) by (rule torch_split_ok[OF nonneg sum])
    have cat: "concat ?parts = xs" by (rule chunks_concat[OF sumn])
    have lens: "map length ?parts = map nat ?sizes" by (rule chunks_lengths[OF sumn])
    obtain g i c where parts: "?parts = [g, i, c]" by simp
    from cat lens f(2,3) le have "g @ i @ c = xs" "int (length g) = ?hid"
      "int (length i) = ?hid - ?cc" "int (length c) = ?cc"
      unfolding parts by simp_all
    moreover have "op_split shape_ops [b, h, w, length xs] (split_indices blk)
        = Inr [[b, h, w, nat ?hid], [b, h, w, nat (?hid - ?cc)], [b, h, w, nat ?cc]]"
      unfolding f(7) using nonneg sum by (simp add: shape_ops_def sh_split_ok)
    ultimately show ?thesis using split parts by simp
  qed
  from a s p show ?thesis by blast
qed

theorem channel_split_partition_witness:
  "GatedConvBlock_init 4 2 7 1 None 0 = Inr blk4_plain
   \<and> sum_list (split_indices blk4_plain) = 16
   \<and> (\<exists>g i c. torch_split [0 ..< 16] (split_indices blk4_plain) = Inr [g, i, c]
          \<and> g @ i @ c = [0 ..< 16] \<and> length g = 8 \<and> length i = 4 \<and> length c = 4)"
proof -
  have w: "hidden_of 2 4 = 8" "conv_channels_of 1 4 = 4"
    by code_simp+
  from channel_split_partition[OF blk4_plain_eval, where xs = "[0 ..< 16]"]
  show ?thesis using blk4_plain_eval unfolding w by simp
qed

subsection \<open>Shape preservation of a block\<close>

text \<open>
  Claim C7, as the specification states it: with \<open>conv_ratio = 1.0\<close> the forward pass is
  well defined for every block. \<^verbatim>\<open>GatedConvBlock(dim=4, expansion_ratio=0.5,
  conv_ratio=1.0)\<close> is constructed, and its forward pass on an input of shape
  \<open>(1, 2, 2, 4)\<close> raises at the split.
\<close>

theorem narrow_block_forward_fails:
  "GatedConvBlock_init 4 (1 / 2) 7 1 None 0 = Inr blk4_narrow
   \<and> GatedConvBlock_forward shape_ops blk4_narrow [1, 2, 2, 4] = Inl RuntimeError"
  by (simp add: blk4_narrow_eval)
     (simp add: blk4_narrow_def GatedConvBlock_forward_def shape_ops_def sh_layer_norm_def
        sh_linear_def sh_split_def torch_split_def bind_r_def)

text \<open>
  Claim C7, amended: for every constructed block with \<open>conv_channels \<le> hidden\<close> (which
  holds whenever \<open>conv_ratio \<le> expansion_ratio\<close>) and an odd kernel size, and every input
  of shape \<open>(B, H, W, dim)\<close> with \<open>H, W \<ge> 1\<close>, the forward pass succeeds through the one
  code path and returns the input's shape. This includes \<open>conv_channels = hidden\<close>, where
  the identity slice has width 0.
\<close>

theorem block_preserves_shape:
  assumes "GatedConvBlock_init d er k cr ls dp = Inr blk"
    and "conv_channels_of cr d \<le> hidden_of er d \<or> cr \<le> er"
    and "odd k" and "1 \<le> h" and "1 \<le> w"
  shows "GatedConvBlock_forward shape_ops blk [b, h, w, nat d] = Inr [b, h, w, nat d]
       \<and> split_indices blk
           = [hidden_of er d, hidden_of er d - conv_channels_of cr d, conv_channels_of cr d]"
proof -
  note f = block_init_fields[OF assms(1)]
  from assms(2) have "conv_channels_of cr d \<le> hidden_of er d"
    using widths_ordered[OF f(1)] by blast
  from block_forward_shape[OF assms(1) this assms(3-5)] f(7) show ?thesis by simp
qed

theorem block_preserves_shape_witness:
  "GatedConvBlock_init 4 1 7 1 None 0 = Inr blk4_square
   \<and> split_indices blk4_square = [4, 0, 4]
   \<and> GatedConvBlock_forward shape_ops blk4_square [2, 5, 3, 4] = Inr [2, 5, 3, 4]"
proof -
  have "GatedConvBlock_forward shape_ops blk4_square [2, 5, 3, nat 4] = Inr [2, 5, 3, nat 4]
       \<and> split_indices blk4_square
           = [hidden_of 1 4, hidden_of 1 4 - conv_channels_of 1 4, conv_channels_of 1 4]"
    by (rule block_preserves_shape[OF blk4_square_eval]) simp_all
  moreover have "hidden_of 1 4 = 4" "conv_channels_of 1 4 = 4"
    by code_simp+
  ultimately show ?thesis
    using blk4_square_eval by simp
qed

subsection \<open>Shapes through the network\<close>

lemma foldM_r_append: "foldM_r f (xs @ ys) x = bind_r (foldM_r f xs x) (foldM_r f ys)"
  by (induction xs arbitrary: x) (auto simp: bind_r_def split: sum.splits)

lemma mapM_r_Inr_set:
  assumes "mapM_r f xs = Inr ys"
  shows "\<forall>y \<in> set ys. \<exists>x \<in> set xs. f x = Inr y"
  using assms
proof (induction xs arbitrary: ys)
  case Nil
  then show ?case by simp
next
  case (Cons x xs)
  from Cons.prems obtain v vs where v: "f x = Inr v" and vs: "mapM_r f xs = Inr vs"
    and ys: "ys = v # vs"
    by (auto simp: bind_r_Inr)
  from Cons.IH[OF vs] v ys show ?case by auto
qed

lemma blocks_forward_shape:
  assumes "\<forall>blk \<in> set blocks. \<exists>dp. GatedConvBlock_init d er k cr ls dp = Inr blk"
    and "conv_channels_of cr d \<le> hidden_of er d" and "odd k" and "1 \<le> h" and "1 \<le> w"
  shows "Sequential_forward shape_ops blocks [b, h, w, nat d] = Inr [b, h, w, nat d]"
  using assms(1)
proof (induction blocks)
  case Nil
  show ?case by (simp add: Sequential_forward_def)
next
  case (Cons blk blocks)
  from Cons.prems obtain dp where "GatedConvBlock_init d er k cr ls dp = Inr blk" by auto
  from block_forward_shape[OF this assms(2-5)] Cons show ?case
    by (simp add: Sequential_forward_def bind_r_simps)
qed

lemma conv_stride2:
  assumes "0 \<le> i" "1 \<le> out" "1 \<le> h" "1 \<le> w"
  shows "sh_conv2d \<lparr>in_channels = i, out_channels = out, conv_kernel_size = 3,
            conv_stride = 2, conv_padding = 1, conv_groups = 1\<rparr> [b, nat i, h, w]
         = Inr [b, nat out, Suc h div 2, Suc w div 2]"
proof -
  have "nat ((int x + 2 * 1 - 3) div 2 + 1) = Suc x div 2" if "1 \<le> x" for x :: nat
    using that by linarith
  with assms show ?thesis by (simp add: sh_conv2d_def conv_out_def)
qed

lemma half_even: "2 dvd (h::nat) \<Longrightarrow> Suc h div 2 = h div 2"
  by presburger

lemma downsample_forward_shape:
  assumes "Downsample_init i out = Inr m" "1 \<le> out" "1 \<le> h" "1 \<le> w"
  shows "Downsample_forward shape_ops m [b, h, w, nat i]
         = Inr [b, Suc h div 2, Suc w div 2, nat out]"
proof -
  from assms(1) have i: "0 \<le> i"
    and m: "m = \<lparr>ds_conv = \<lparr>in_channels = i, out_channels = out, conv_kernel_size = 3,
                      conv_stride = 2, conv_padding = 1, conv_groups = 1\<rparr>,
                 ds_norm = \<lparr>normalized_shape = out\<rparr>\<rparr>"
    by (auto simp: Downsample_init_def bind_r_Inr Conv2d_init_def LayerNorm_init_def
        split: if_splits)
  show ?thesis
    unfolding Downsample_forward_def m
    using i assms(2) by (simp add: shape_ops_def sh_permute_cf sh_permute_cl bind_r_simps
        conv_stride2[OF i assms(2-4)] sh_layer_norm_def)
qed

lemma stem_forward_shape:
  assumes "Stem_init ic d0 mid = Inr st" "2 \<le> d0" "1 \<le> h" "1 \<le> w"
  shows "Stem_forward shape_ops st [b, nat ic, h, w]
         = Inr [b, Suc (Suc h div 2) div 2, Suc (Suc w div 2) div 2, nat d0]"
proof -
  from assms(2) have half: "1 \<le> d0 div 2" "0 \<le> d0 div 2" "1 \<le> d0" by simp_all
  from assms(1) have ic: "0 \<le> ic"
    and st: "st = \<lparr>stem_conv1 = \<lparr>in_channels = ic, out_channels = d0 div 2,
                      conv_kernel_size = 3, conv_stride = 2, conv_padding = 1, conv_groups = 1\<rparr>,
                  stem_norm1 = (if mid then Some \<lparr>normalized_shape = d0 div 2\<rparr> else None),
                  stem_conv2 = \<lparr>in_channels = d0 div 2, out_channels = d0,
                      conv_kernel_size = 3, conv_stride = 2, conv_padding = 1, conv_groups = 1\<rparr>,
                  stem_norm2 = \<lparr>normalized_shape = d0\<rparr>\<rparr>"
    by (auto simp: Stem_init_def bind_r_Inr Conv2d_init_def LayerNorm_init_def
        split: if_splits)
  from assms(3,4) have h2: "1 \<le> Suc h div 2" "1 \<le> Suc w div 2" by linarith+
  show ?thesis
    unfolding Stem_forward_def st
    using ic half by (simp add: shape_ops_def sh_permute_cf sh_permute_cl bind_r_simps
        conv_stride2[OF ic half(1) assms(3,4)] conv_stride2[OF half(2,3) h2]
        sh_layer_norm_def)
qed


lemma stage_init_parts:
  assumes "MambaOutStage_init prev (Some d) depth er k cr dsf ls dps = Inr stage" "d \<noteq> 0"
  shows "grad_checkpointing stage = False"
    and "\<forall>blk \<in> set (stage_blocks stage). \<exists>dp. GatedConvBlock_init d er k cr ls dp = Inr blk"
    and "dsf \<Longrightarrow> \<exists>m. Downsample_init prev d = Inr m \<and> stage_downsample stage = Downsample_module m"
    and "\<not> dsf \<Longrightarrow> prev = d \<and> stage_downsample stage = Identity"
    and "depth \<le> 0 \<Longrightarrow> stage_blocks stage = []"
proof -
  let ?f = "\<lambda>j. bind_r (case dps of Seq rates \<Rightarrow> getitem rates j | Scalar rate \<Rightarrow> Inr rate)
          (\<lambda>rate. GatedConvBlock_init d er k cr ls rate)"
  from assms obtain ds blocks where
    ds: "(if dsf then bind_r (Downsample_init prev d) (\<lambda>m. Inr (Downsample_module m))
          else if prev = d then Inr Identity else Inl AssertionError) = Inr ds"
    and blocks: "mapM_r ?f [0 ..< nat depth] = Inr blocks"
    and stage: "stage = \<lparr>grad_checkpointing = False, stage_downsample = ds, stage_blocks = blocks\<rparr>"
    by (auto simp: MambaOutStage_init_def Let_def dim_out_or_def bind_r_Inr)
  show "grad_checkpointing stage = False" by (simp add: stage)
  show "\<forall>blk \<in> set (stage_blocks stage). \<exists>dp. GatedConvBlock_init d er k cr ls dp = Inr blk"
    using mapM_r_Inr_set[OF blocks] by (auto simp: stage bind_r_Inr)
  show "\<exists>m. Downsample_init prev d = Inr m \<and> stage_downsample stage = Downsample_module m" if dsf
    using ds that by (auto simp: stage bind_r_Inr)
  show "prev = d \<and> stage_downsample stage = Identity" if "\<not> dsf"
    using ds that by (auto simp: stage split: if_splits)
  show "stage_blocks stage = []" if "depth \<le> 0"
    using blocks that by (simp add: stage)
qed

lemma stage_forward_shape:
  assumes init: "MambaOutStage_init prev (Some d) depth er k cr dsf ls dps = Inr stage"
    and d: "0 < d"
    and blk: "0 < depth \<Longrightarrow> odd k \<and> conv_channels_of cr d \<le> hidden_of er d"
    and h: "1 \<le> h" and w: "1 \<le> w"
    and even: "dsf \<Longrightarrow> 2 dvd h \<and> 2 dvd w"
  shows "MambaOutStage_forward shape_ops stage [b, h, w, nat prev]
         = Inr (if dsf then [b, h div 2, w div 2, nat d] else [b, h, w, nat d])"
proof -
  from d have d0: "d \<noteq> 0" "1 \<le> d" by simp_all
  note parts = stage_init_parts[OF init d0(1)]
  have blocks: "Sequential_forward shape_ops (stage_blocks stage) [b, h', w', nat d]
      = Inr [b, h', w', nat d]" if "1 \<le> h'" "1 \<le> w'" for h' w'
  proof (cases "0 < depth")
    case True
    from blk[OF True] have "conv_channels_of cr d \<le> hidden_of er d" "odd k" by simp_all
    then show ?thesis by (rule blocks_forward_shape[OF parts(2) _ _ that])
  next
    case False
    then have "stage_blocks stage = []" by (intro parts(5)) simp
    then show ?thesis by (simp add: Sequential_forward_def)
  qed
  show ?thesis
  proof (cases dsf)
    case True
    from parts(3)[OF True] obtain m where m: "Downsample_init prev d = Inr m"
      and ds: "stage_downsample stage = Downsample_module m" by blast
    from even[OF True] h w have half: "Suc h div 2 = h div 2" "Suc w div 2 = w div 2"
      "1 \<le> h div 2" "1 \<le> w div 2"
      by (auto simp: half_even elim!: dvdE)
    from downsample_forward_shape[OF m d0(2) h w, of b] True show ?thesis
      by (simp add: MambaOutStage_forward_def ds parts(1) bind_r_simps half blocks[OF half(3,4)])
  next
    case False
    from parts(4)[OF False] False show ?thesis
      by (simp add: MambaOutStage_forward_def parts(1) bind_r_simps blocks[OF h w])
  qed
qed

lemma build_stages_shape:
  assumes "build_stages depths dims rates k cr ls is prev acc = Inr (p, sts)"
    and "\<forall>i \<in> set is. 0 < i" and "\<forall>d \<in> set dims. 0 < d"
    and "\<forall>i \<in> set is. 0 < depths ! i \<longrightarrow>
           odd k \<and> conv_channels_of cr (dims ! i) \<le> hidden_of (8 / 3) (dims ! i)"
    and "1 \<le> h" and "1 \<le> w"
    and "2 ^ length is dvd h" and "2 ^ length is dvd w"
  shows "\<exists>new. sts = acc @ new
           \<and> foldM_r (MambaOutStage_forward shape_ops) new [b, h, w, nat prev]
               = Inr [b, h div 2 ^ length is, w div 2 ^ length is, nat p]
           \<and> p = last (prev # map ((!) dims) is)"
  using assms(1,2,4-8)
proof (induction "is" arbitrary: prev acc h w)
  case Nil
  then show ?case by simp
next
  case (Cons i "is")
  from Cons.prems(1) obtain d depth rate stage where
    d: "getitem dims i = Inr d" and dep: "getitem depths i = Inr depth"
    and st: "MambaOutStage_init prev (Some d) depth (8 / 3) k cr (0 < i) ls (Seq rate) = Inr stage"
    and rest: "build_stages depths dims rates k cr ls is d (acc @ [stage]) = Inr (p, sts)"
    by (auto simp: bind_r_Inr)
  from d have di: "d = dims ! i" "i < length dims" by (auto simp: getitem_def split: if_splits)
  from dep have depi: "depth = depths ! i" by (auto simp: getitem_def split: if_splits)
  from di assms(3) have dpos: "0 < d" by simp
  from Cons.prems(2) have i: "0 < i" and is_pos: "\<forall>i \<in> set is. 0 < i" by simp_all
  from Cons.prems(3) have blk: "0 < depth \<Longrightarrow> odd k \<and> conv_channels_of cr d \<le> hidden_of (8 / 3) d"
    and is_blk: "\<forall>i \<in> set is. 0 < depths ! i \<longrightarrow>
           odd k \<and> conv_channels_of cr (dims ! i) \<le> hidden_of (8 / 3) (dims ! i)"
    by (simp_all add: di depi)
  from Cons.prems(6,7) have ev: "2 dvd h" "2 dvd w" by (auto elim: dvd_mult_left)
  from Cons.prems(6,7) have dv: "2 ^ length is dvd h div 2" "2 ^ length is dvd w div 2"
    by (auto elim!: dvdE)
  from ev Cons.prems(4,5) have pos: "1 \<le> h div 2" "1 \<le> w div 2" by (auto elim!: dvdE)
  from stage_forward_shape[OF st dpos blk Cons.prems(4,5), of b] i ev
  have fw: "MambaOutStage_forward shape_ops stage [b, h, w, nat prev]
      = Inr [b, h div 2, w div 2, nat d]" by simp
  from Cons.IH[OF rest is_pos is_blk pos dv] obtain new where
    new: "sts = (acc @ [stage]) @ new"
    and fnew: "foldM_r (MambaOutStage_forward shape_ops) new [b, h div 2, w div 2, nat d]
        = Inr [b, h div 2 div 2 ^ length is, w div 2 div 2 ^ length is, nat p]"
    and p: "p = last (d # map ((!) dims) is)"
    by blast
  have "sts = acc @ (stage # new)" using new by simp
  moreover have "foldM_r (MambaOutStage_forward shape_ops) (stage # new) [b, h, w, nat prev]
      = Inr [b, h div 2 ^ length (i # is), w div 2 ^ length (i # is), nat p]"
    by (simp add: fw fnew bind_r_simps div_mult2_eq)
  moreover have "p = last (prev # map ((!) dims) (i # is))" using p di by simp
  ultimately show ?case by blast
qed

lemma net_8_16_ok:
  "\<exists>m. MambaOut_init linspace_scalar32 3 10 (Seq [1, 1]) (Seq [8, 16]) 1 7 None 0 0
          ([] :: (string \<times> unit) list) = Inr m"
proof (rule not_isl_Inr)
  show "\<not> isl (MambaOut_init linspace_scalar32 3 10 (Seq [1, 1]) (Seq [8, 16]) 1 7 None 0 0
                 ([] :: (string \<times> unit) list))"
    by code_simp
qed

text \<open>
  Claim C5, as the specification states it: for every network that is constructed and
  every input whose spatial sizes are divisible by the cumulative stride,
  \<open>forward_features\<close> returns a tensor of the stated shape. The constructor checks
  neither the kernel size nor the convolved width against the expanded width, and it
  accepts a first width of 1: the three networks below, with depths \<open>[1]\<close>, are
  constructed (\<open>kernel_size = 4\<close> at width 8; \<open>conv_ratio = 3.0\<close> at width 8; width 1),
  and on an input of shape \<open>(1, 3, 32, 32)\<close> their \<open>forward_features\<close> raises.
\<close>

theorem constructed_networks_without_features:
  "(case MambaOut_init linspace_scalar32 3 10 (Seq [1]) (Seq [8]) 1 4 None 0 0
           ([] :: (string \<times> unit) list) of
      Inl e \<Rightarrow> False
    | Inr m \<Rightarrow> forward_features shape_ops m [1, 3, 32, 32] = Inl RuntimeError)
   \<and> (case MambaOut_init linspace_scalar32 3 10 (Seq [1]) (Seq [8]) 3 7 None 0 0
           ([] :: (string \<times> unit) list) of
      Inl e \<Rightarrow> False
    | Inr m \<Rightarrow> forward_features shape_ops m [1, 3, 32, 32] = Inl RuntimeError)
   \<and> (case MambaOut_init linspace_scalar32 3 10 (Seq [1]) (Seq [1]) 1 7 None 0 0
           ([] :: (string \<times> unit) list) of
      Inl e \<Rightarrow> False
    | Inr m \<Rightarrow> forward_features shape_ops m [1, 3, 32, 32] = Inl RuntimeError)"
  by code_simp

text \<open>
  Claim C5, amended: for a constructed network with at least one stage, positive widths
  and a first width of at least 2, in which every stage that has a block has
  \<open>conv_channels \<le> hidden\<close> at its width and an odd kernel size, and for an input of
  shape \<open>(B, in_chans, H, W)\<close> whose non-zero spatial sizes are divisible by
  \<open>4 \<times> 2^(num_stages - 1)\<close>, \<open>forward_features\<close> returns a tensor of shape
  \<open>(B, H / (4 \<times> 2^(num_stages - 1)), W / (4 \<times> 2^(num_stages - 1)), C)\<close>, where \<open>C\<close> is the
  last stage's output width.
\<close>

theorem forward_features_shape:
  assumes init: "MambaOut_init krn ic nc depths dims cr k ls dpr dr kw = Inr m"
    and n: "as_list depths \<noteq> []"
    and dims: "\<forall>d \<in> set (as_list dims). 0 < d"
    and dim0: "2 \<le> as_list dims ! 0"
    and blocks: "\<forall>i < length (as_list depths). 0 < as_list depths ! i \<longrightarrow>
           odd k \<and> conv_channels_of cr (as_list dims ! i) \<le> hidden_of (8 / 3) (as_list dims ! i)"
    and h: "1 \<le> h" and w: "1 \<le> w"
    and dvd_h: "4 * 2 ^ (length (as_list depths) - 1) dvd h"
    and dvd_w: "4 * 2 ^ (length (as_list depths) - 1) dvd w"
  shows "forward_features shape_ops m [b, nat ic, h, w]
         = Inr [b, h div (4 * 2 ^ (num_stage m - 1)), w div (4 * 2 ^ (num_stage m - 1)),
                nat (as_list dims ! (num_stage m - 1))]
       \<and> num_stage m = length (as_list depths)"
proof -
  let ?depths = "as_list depths" and ?dims = "as_list dims"
  let ?n = "length ?depths"
  from init obtain dim0 st rates p sts where
    d0: "getitem ?dims 0 = Inr dim0"
    and st: "Stem_init ic dim0 True = Inr st"
    and bs: "build_stages ?depths ?dims rates k cr ls [0 ..< ?n] dim0 [] = Inr (p, sts)"
    and m: "stem m = st" "stages m = sts" "num_stage m = ?n"
    by (auto simp: MambaOut_init_def Let_def bind_r_Inr)
  from n have upt: "[0 ..< ?n] = 0 # [1 ..< ?n]" by (simp add: upt_conv_Cons)
  from d0 have dim0_eq: "dim0 = ?dims ! 0" "0 < length ?dims"
    by (auto simp: getitem_def split: if_splits)
  with dim0 have d0pos: "0 < dim0" and d0two: "2 \<le> dim0" by simp_all
  from bs[unfolded upt] obtain depth rate stage0 where
    dep0: "getitem ?depths 0 = Inr depth"
    and s0: "MambaOutStage_init dim0 (Some dim0) depth (8 / 3) k cr False ls (Seq rate) = Inr stage0"
    and rest: "build_stages ?depths ?dims rates k cr ls [1 ..< ?n] dim0 [stage0] = Inr (p, sts)"
    using d0 by (auto simp: bind_r_Inr)
  from dep0 have depth0: "depth = ?depths ! 0" by (auto simp: getitem_def split: if_splits)
  from n have npos: "0 < ?n" by simp
  have blk0: "odd k \<and> conv_channels_of cr dim0 \<le> hidden_of (8 / 3) dim0" if "0 < depth"
    using blocks[rule_format, OF npos] that unfolding depth0 dim0_eq(1) by blast
  have blk_rest: "\<forall>i \<in> set [1 ..< ?n]. 0 < ?depths ! i \<longrightarrow>
      odd k \<and> conv_channels_of cr (?dims ! i) \<le> hidden_of (8 / 3) (?dims ! i)"
  proof (intro ballI impI)
    fix i
    assume "i \<in> set [1 ..< ?n]" and pos: "0 < ?depths ! i"
    then have "i < ?n" by simp
    from blocks[rule_format, OF this pos]
    show "odd k \<and> conv_channels_of cr (?dims ! i) \<le> hidden_of (8 / 3) (?dims ! i)" .
  qed
  define h4 w4 where "h4 = h div 4" and "w4 = w div 4"
  from dvd_h obtain qh where qh: "h = 4 * (2 ^ (?n - 1) * qh)" by (auto elim!: dvdE)
  from dvd_w obtain qw where qw: "w = 4 * (2 ^ (?n - 1) * qw)" by (auto elim!: dvdE)
  have h4: "h4 = 2 ^ (?n - 1) * qh" unfolding h4_def by (subst qh) simp
  have w4: "w4 = 2 ^ (?n - 1) * qw" unfolding w4_def by (subst qw) simp
  have hw: "h = 4 * h4" "w = 4 * w4" using qh qw h4 w4 by simp_all
  with h w have pos4: "1 \<le> h4" "1 \<le> w4" by simp_all
  have quarter: "Suc (Suc h div 2) div 2 = h4" "Suc (Suc w div 2) div 2 = w4"
    unfolding hw by presburger+
  have stem_fw: "Stem_forward shape_ops st [b, nat ic, h, w] = Inr [b, h4, w4, nat dim0]"
    using stem_forward_shape[OF st d0two h w, of b] by (simp add: quarter)
  have s0_fw: "MambaOutStage_forward shape_ops stage0 [b, h4, w4, nat dim0]
      = Inr [b, h4, w4, nat dim0]"
    using stage_forward_shape[OF s0 d0pos blk0 pos4, of b] by simp
  have len: "length [1 ..< ?n] = ?n - 1" by simp
  have dv: "2 ^ length [1 ..< ?n] dvd h4" "2 ^ length [1 ..< ?n] dvd w4"
    unfolding len h4 w4 by simp_all
  have gt: "\<forall>i \<in> set [1 ..< ?n]. 0 < i" by simp
  from build_stages_shape[OF rest gt dims blk_rest pos4 dv, of b] obtain new where
    sts: "sts = [stage0] @ new"
    and fnew: "foldM_r (MambaOutStage_forward shape_ops) new [b, h4, w4, nat dim0]
        = Inr [b, h4 div 2 ^ (?n - 1), w4 div 2 ^ (?n - 1), nat p]"
    and p: "p = last (dim0 # map ((!) ?dims) [1 ..< ?n])"
    unfolding len by blast
  have p': "p = ?dims ! (?n - 1)"
  proof (cases "?n = 1")
    case True
    with p dim0_eq show ?thesis by simp
  next
    case False
    with n have "1 < ?n" by (cases ?depths) (auto simp: Suc_le_eq)
    with n have "[1 ..< ?n] \<noteq> []" "last [1 ..< ?n] = ?n - 1" by simp_all
    with p show ?thesis by (simp add: last_map)
  qed
  have "forward_features shape_ops m [b, nat ic, h, w]
      = Inr [b, h4 div 2 ^ (?n - 1), w4 div 2 ^ (?n - 1), nat p]"
    by (simp add: forward_features_def m sts stem_fw s0_fw fnew bind_r_simps)
  then show ?thesis
    by (simp add: m p' h4_def w4_def div_mult2_eq)
qed

theorem forward_features_shape_witness:
  "\<exists>m. MambaOut_init linspace_scalar32 3 10 (Seq [1, 1]) (Seq [8, 16]) 1 7 None 0 0
          ([] :: (string \<times> unit) list) = Inr m
       \<and> forward_features shape_ops m [1, 3, 32, 32] = Inr [1, 4, 4, 16]"
proof -
  obtain m where m: "MambaOut_init linspace_scalar32 3 10 (Seq [1, 1]) (Seq [8, 16]) 1 7 None 0 0
          ([] :: (string \<times> unit) list) = Inr m"
    using net_8_16_ok ..
  have wid: "conv_channels_of 1 d \<le> hidden_of (8 / 3) d" if "0 \<le> d" for d
    by (rule widths_ordered[OF that]) simp
  have "forward_features shape_ops m [1, nat 3, 32, 32]
      = Inr [1, 32 div (4 * 2 ^ (num_stage m - 1)), 32 div (4 * 2 ^ (num_stage m - 1)),
             nat (as_list (Seq [8, 16]) ! (num_stage m - 1))]
       \<and> num_stage m = length (as_list (Seq [1, 1 :: int]))"
    by (rule forward_features_shape[OF m])
       (auto simp: as_list_def less_Suc_eq numeral_2_eq_2 wid)
  then have "forward_features shape_ops m [1, 3, 32, 32] = Inr [1, 4, 4, 16]"
    by (simp add: as_list_def)
  with m show ?thesis by blast
qed

end
